theory Spec2Isabelle
  imports Complex_Main "HOL-Library.Multiset"
begin

section \<open>JavaScript values used by the pipeline\<close>

text \<open>
  A JavaScript string is a sequence of UTF-16 code units; it is modelled as a list of
  natural numbers, one per code unit. \<open>asc\<close> turns an ASCII literal into such a list.

  A JavaScript number is an IEEE-754 double. The model takes every finite number as the
  exact rational it denotes: rounding, overflow and the infinities are outside the model.
  \<open>NaN\<close> appears where the source tests for it, as the failure value of \<open>parseInt\<close> and
  \<open>parseFloat\<close>: \<open>None\<close>.
\<close>

type_synonym jsstring = "nat list"

definition asc :: "string \<Rightarrow> jsstring" where
  "asc s = map of_char s"

definition isDigit :: "nat \<Rightarrow> bool" where
  "isDigit c = (48 \<le> c \<and> c \<le> 57)"

text \<open>
  The code units that \<open>String.prototype.trim\<close>, \<open>parseInt\<close> and \<open>parseFloat\<close> skip:
  the WhiteSpace and LineTerminator productions of ECMAScript.
\<close>

definition isWhiteSpace :: "nat \<Rightarrow> bool" where
  "isWhiteSpace c =
     ((9 \<le> c \<and> c \<le> 13) \<or> c = 32 \<or> c = 160 \<or> c = 5760 \<or> (8192 \<le> c \<and> c \<le> 8202) \<or>
      c = 8232 \<or> c = 8233 \<or> c = 8239 \<or> c = 8287 \<or> c = 12288 \<or> c = 65279)"

definition digitsVal :: "jsstring \<Rightarrow> nat" where
  "digitsVal ds = foldl (\<lambda>a c. 10 * a + (c - 48)) 0 ds"

fun natDigits :: "nat \<Rightarrow> jsstring" where
  "natDigits n = (if n < 10 then [48 + n] else natDigits (n div 10) @ [48 + n mod 10])"

declare natDigits.simps [simp del]

text \<open>
  \<open>String(n)\<close> for an integer \<open>n\<close>: the decimal digits, with a leading minus sign for a
  negative one. (JavaScript switches to exponent notation from \<open>10^21\<close> on; the integers
  of the pipeline, years of at most four characters and period codes such as 202301,
  are far below.)
\<close>

definition String_int :: "int \<Rightarrow> jsstring" where
  "String_int i = (if i < 0 then 45 # natDigits (nat (- i)) else natDigits (nat i))"

text \<open>
  \<open>parseInt(s, 10)\<close>: skip leading white space, read an optional sign, then the longest
  run of decimal digits; \<open>NaN\<close> (here \<open>None\<close>) when that run is empty.
\<close>

definition parseInt10 :: "jsstring \<Rightarrow> int option" where
  "parseInt10 s =
     (let t = dropWhile isWhiteSpace s;
          neg = (t \<noteq> [] \<and> hd t = 45);
          u = (if t \<noteq> [] \<and> (hd t = 43 \<or> hd t = 45) then tl t else t);
          z = takeWhile isDigit u
      in if z = [] then None
         else Some ((if neg then - 1 else 1) * int (digitsVal z)))"

text \<open>
  \<open>parseFloat(s)\<close>: skip leading white space and read the longest prefix that is a
  decimal literal (optional sign; digits with an optional fraction, or a fraction alone;
  an optional exponent, which counts only when it has at least one digit); \<open>NaN\<close> when
  there is none. The literal \<open>Infinity\<close> is outside the model (see above).
\<close>

definition parseExponent :: "jsstring \<Rightarrow> int" where
  "parseExponent r =
     (if r \<noteq> [] \<and> (hd r = 101 \<or> hd r = 69) then
        (let e = tl r;
             eneg = (e \<noteq> [] \<and> hd e = 45);
             e' = (if e \<noteq> [] \<and> (hd e = 43 \<or> hd e = 45) then tl e else e);
             ed = takeWhile isDigit e'
         in if ed = [] then 0 else (if eneg then - 1 else 1) * int (digitsVal ed))
      else 0)"

definition pow10 :: "int \<Rightarrow> rat" where
  "pow10 e = (if e < 0 then 1 / 10 ^ nat (- e) else 10 ^ nat e)"

definition parseFloat :: "jsstring \<Rightarrow> rat option" where
  "parseFloat s =
     (let t = dropWhile isWhiteSpace s;
          neg = (t \<noteq> [] \<and> hd t = 45);
          u = (if t \<noteq> [] \<and> (hd t = 43 \<or> hd t = 45) then tl t else t);
          ip = takeWhile isDigit u;
          r1 = dropWhile isDigit u;
          dot = (r1 \<noteq> [] \<and> hd r1 = 46);
          fp = (if dot then takeWhile isDigit (tl r1) else []);
          r2 = (if dot then dropWhile isDigit (tl r1) else r1)
      in if ip = [] \<and> fp = [] then None
         else Some ((if neg then - 1 else 1) *
                    (of_nat (digitsVal ip) + of_nat (digitsVal fp) / 10 ^ length fp) *
                    pow10 (parseExponent r2)))"

text \<open>
  \<open>x.toFixed(f)\<close>: the sign, then the integer \<open>n\<close> nearest to \<open>|x| * 10^f\<close> (the larger
  one on a tie), written with at least \<open>f + 1\<close> digits and a point before the last
  \<open>f\<close> of them. (For \<open>|x|\<close> from \<open>10^21\<close> on JavaScript returns \<open>String(x)\<close> instead.)
\<close>

definition toFixed :: "nat \<Rightarrow> rat \<Rightarrow> jsstring" where
  "toFixed f x =
     (let a = \<bar>x\<bar>;
          n = nat \<lfloor>a * 10 ^ f + 1 / 2\<rfloor>;
          m = natDigits n;
          m' = replicate (Suc f - length m) 48 @ m;
          k = length m' - f
      in (if x < 0 then [45] else []) @ take k m' @ (if f = 0 then [] else 46 # drop k m'))"

section \<open>The data model of \<open>dataUtils.ts\<close>\<close>

text \<open>
  \<open>RawData\<close>: the fields \<open>processData\<close> reads. \<open>period\<close> is the field of the data
  period (a string or a number), \<open>partner\<close> the partner name (absent: \<open>None\<close>) and
  \<open>rmb\<close> the export value (absent, a string or a number). A numeric period is an
  integer, such as 202301; a numeric export value is a finite number.
\<close>

datatype period = PStr jsstring | PNum int

datatype amount = Absent | AStr jsstring | ANum rat

record RawData =
  period :: period
  partner :: "jsstring option"
  rmb :: amount

text \<open>
  The rows after aggregation, after the market share is added, and \<open>ProcessedData\<close>.
  The fields are, in the source's order: year, partner name, export value, market share,
  year-over-year growth (\<open>null\<close> is \<open>None\<close>) and last year's export value.
\<close>

record AggRow =
  year :: int
  partnerName :: jsstring
  exportValue :: rat

record ShareRow = AggRow +
  marketShare :: rat

record ProcessedData = ShareRow +
  yoyGrowth :: "rat option"
  prevExport :: rat

section \<open>\<open>processData\<close>\<close>

subsection \<open>Step 1: cleaning\<close>

text \<open>\<open>v || 0\<close> on a number: \<open>NaN\<close> and zero give 0, every other number itself.\<close>

definition orZero :: "rat option \<Rightarrow> rat" where
  "orZero v = (case v of None \<Rightarrow> 0 | Some x \<Rightarrow> if x = 0 then 0 else x)"

definition stripCommas :: "jsstring \<Rightarrow> jsstring" where
  "stripCommas s = filter (\<lambda>c. c \<noteq> 44) s"

definition coerceRmb :: "amount \<Rightarrow> rat" where
  "coerceRmb a =
     (case a of
        Absent \<Rightarrow> 0
      | AStr s \<Rightarrow> orZero (parseFloat (stripCommas s))
      | ANum v \<Rightarrow> orZero (Some v))"

definition String_period :: "period \<Rightarrow> jsstring" where
  "String_period p = (case p of PStr s \<Rightarrow> s | PNum n \<Rightarrow> String_int n)"

definition extractYear :: "period \<Rightarrow> int option" where
  "extractYear p = parseInt10 (take 4 (String_period p))"

text \<open>The placeholder partner name of the source, the two code units U+672A U+77E5.\<close>

definition unknownName :: jsstring where
  "unknownName = [26410, 30693]"

definition nameOrUnknown :: "jsstring option \<Rightarrow> jsstring" where
  "nameOrUnknown n = (case n of None \<Rightarrow> unknownName | Some s \<Rightarrow> if s = [] then unknownName else s)"

text \<open>
  The \<open>map\<close> followed by \<open>filter(row => !isNaN(row.year))\<close>: a row whose year is
  \<open>NaN\<close> yields nothing.
\<close>

definition cleanRow :: "RawData \<Rightarrow> AggRow option" where
  "cleanRow row =
     (case extractYear (period row) of
        None \<Rightarrow> None
      | Some y \<Rightarrow> Some \<lparr>year = y, partnerName = nameOrUnknown (partner row),
                        exportValue = coerceRmb (rmb row)\<rparr>)"

definition cleanedData :: "RawData list \<Rightarrow> AggRow list" where
  "cleanedData rawData = List.map_filter cleanRow rawData"

subsection \<open>Step 2: aggregation by year and partner\<close>

text \<open>
  The accumulator object is an association list in insertion order. Every key holds a
  \<open>-\<close> and so is no array index: \<open>Object.values\<close> lists the entries in insertion order.
\<close>

definition aggKey :: "AggRow \<Rightarrow> jsstring" where
  "aggKey r = String_int (year r) @ [45] @ partnerName r"

definition aggStep :: "(jsstring \<times> AggRow) list \<Rightarrow> AggRow \<Rightarrow> (jsstring \<times> AggRow) list" where
  "aggStep acc cur =
     (let key = aggKey cur;
          acc' = (if map_of acc key = None
                  then acc @ [(key, \<lparr>year = year cur, partnerName = partnerName cur,
                                     exportValue = 0\<rparr>)]
                  else acc)
      in map (\<lambda>(k, r). if k = key then (k, r\<lparr>exportValue := exportValue r + exportValue cur\<rparr>)
                        else (k, r)) acc')"

definition aggregated :: "AggRow list \<Rightarrow> (jsstring \<times> AggRow) list" where
  "aggregated cleaned = foldl aggStep [] cleaned"

definition aggregatedArray :: "AggRow list \<Rightarrow> AggRow list" where
  "aggregatedArray cleaned = map snd (aggregated cleaned)"

subsection \<open>Steps 3 and 4: the total of each year and the market share\<close>

definition totalStep :: "(jsstring \<rightharpoonup> rat) \<Rightarrow> AggRow \<Rightarrow> (jsstring \<rightharpoonup> rat)" where
  "totalStep acc cur =
     acc(String_int (year cur) \<mapsto> orZero (acc (String_int (year cur))) + exportValue cur)"

definition globalTotal :: "AggRow list \<Rightarrow> (jsstring \<rightharpoonup> rat)" where
  "globalTotal rows = foldl totalStep Map.empty rows"

text \<open>\<open>globalTotal[y] || 1\<close>: the divisor of the market share.\<close>

definition shareDivisor :: "(jsstring \<rightharpoonup> rat) \<Rightarrow> int \<Rightarrow> rat" where
  "shareDivisor gt y =
     (case gt (String_int y) of None \<Rightarrow> 1 | Some t \<Rightarrow> if t = 0 then 1 else t)"

definition withMarketShare :: "AggRow list \<Rightarrow> ShareRow list" where
  "withMarketShare rows =
     map (\<lambda>row. \<lparr>year = year row, partnerName = partnerName row, exportValue = exportValue row,
                 marketShare = exportValue row / shareDivisor (globalTotal rows) (year row)\<rparr>)
         rows"

subsection \<open>Step 5: year-over-year growth\<close>

definition growthRow :: "ShareRow list \<Rightarrow> ShareRow \<Rightarrow> ProcessedData" where
  "growthRow ws row =
     (let prevYearRow = find (\<lambda>r. year r = year row - 1 \<and> partnerName r = partnerName row) ws;
          prevExp = (case prevYearRow of None \<Rightarrow> 0 | Some r \<Rightarrow> exportValue r);
          yoy = (if prevExp \<noteq> 0 then Some ((exportValue row - prevExp) / \<bar>prevExp\<bar>) else None)
      in \<lparr>year = year row, partnerName = partnerName row, exportValue = exportValue row,
          marketShare = marketShare row, yoyGrowth = yoy, prevExport = prevExp\<rparr>)"

definition finalData :: "ShareRow list \<Rightarrow> ProcessedData list" where
  "finalData ws = map (growthRow ws) ws"

subsection \<open>Step 6: sorting\<close>

text \<open>
  \<open>Array.prototype.sort\<close> is stable, and both comparators of this program are
  consistent, so the result is the one stable arrangement: each element is put before
  the first later element it does not compare greater than.
\<close>

fun insertBy :: "('a \<Rightarrow> 'a \<Rightarrow> rat) \<Rightarrow> 'a \<Rightarrow> 'a list \<Rightarrow> 'a list" where
  "insertBy cmp x [] = [x]"
| "insertBy cmp x (y # ys) = (if cmp x y \<le> 0 then x # y # ys else y # insertBy cmp x ys)"

definition jsSort :: "('a \<Rightarrow> 'a \<Rightarrow> rat) \<Rightarrow> 'a list \<Rightarrow> 'a list" where
  "jsSort cmp xs = foldr (insertBy cmp) xs []"

definition compareRows :: "ProcessedData \<Rightarrow> ProcessedData \<Rightarrow> rat" where
  "compareRows a b =
     (if year a \<noteq> year b then of_int (year a - year b) else exportValue b - exportValue a)"

definition processData :: "RawData list \<Rightarrow> ProcessedData list" where
  "processData rawData =
     jsSort compareRows (finalData (withMarketShare (aggregatedArray (cleanedData rawData))))"

section \<open>\<open>downloadCSV\<close>\<close>

text \<open>
  \<open>downloadCSV\<close> builds one object per exported record and hands the array to
  \<open>Papa.unparse\<close>, whose text it prefixes with U+FEFF. An object is the list of its
  properties in insertion order, which is the order of the columns. \<open>Papa.unparse\<close>
  belongs to a library outside the repository and is a parameter of the model; creating
  and clicking the download link is not modelled.
\<close>

datatype cell = CNull | CNum rat | CStr jsstring

type_synonym csvRow = "(jsstring \<times> cell) list"

text \<open>
  The property names, as code units: the year, the partner name, the market share, the
  year-over-year growth, and the latter two with the suffix \<open>_\<close> U+5C55 U+793A
  (for display). \<open>colExport\<close> is the name of the export value, U+51FA U+53E3 U+989D.
\<close>

definition colYear :: jsstring where
  "colYear = [24180, 20221]"

definition colPartner :: jsstring where
  "colPartner = [36152, 26131, 20249, 20276, 21517, 31216]"

definition colShare :: jsstring where
  "colShare = [24066, 22330, 20221, 39069]"

definition colGrowth :: jsstring where
  "colGrowth = [21516, 27604, 22686, 36895]"

definition colShareShown :: jsstring where
  "colShareShown = colShare @ [95, 23637, 31034]"

definition colGrowthShown :: jsstring where
  "colGrowthShown = colGrowth @ [95, 23637, 31034]"

definition colExport :: jsstring where
  "colExport = [20986, 21475, 39069]"

definition csvRowOf :: "ProcessedData \<Rightarrow> csvRow" where
  "csvRowOf row =
     [(colYear, CNum (of_int (year row))),
      (colPartner, CStr (partnerName row)),
      (colShare, CNum (marketShare row)),
      (colGrowth, (case yoyGrowth row of None \<Rightarrow> CNull | Some g \<Rightarrow> CNum g)),
      (colShareShown, CStr (toFixed 2 (marketShare row * 100) @ [37])),
      (colGrowthShown,
         CStr (case yoyGrowth row of None \<Rightarrow> [] | Some g \<Rightarrow> toFixed 1 (g * 100) @ [37]))]"

definition csvData :: "ProcessedData list \<Rightarrow> csvRow list" where
  "csvData data = map csvRowOf (filter (\<lambda>r. yoyGrowth r \<noteq> None) data)"

definition downloadText :: "(csvRow list \<Rightarrow> jsstring) \<Rightarrow> ProcessedData list \<Rightarrow> jsstring" where
  "downloadText unparse data = 65279 # unparse (csvData data)"

section \<open>The plotted set of \<open>BCGMatrix\<close>\<close>

text \<open>
  The \<open>useMemo\<close> block of the component: a function of the properties \<open>data\<close> and
  \<open>year\<close> and of the state \<open>yMin\<close>, \<open>yMax\<close>, \<open>minShare\<close>, \<open>maxShare\<close> and
  \<open>countryFilter\<close> (the four bounds are finite numbers).
\<close>

definition trim :: "jsstring \<Rightarrow> jsstring" where
  "trim s = rev (dropWhile isWhiteSpace (rev (dropWhile isWhiteSpace s)))"

text \<open>\<open>s.split(/[,\<dots>]/)\<close> with the ASCII comma and the full-width comma U+FF0C.\<close>

definition isComma :: "nat \<Rightarrow> bool" where
  "isComma c = (c = 44 \<or> c = 65292)"

fun splitOn :: "(nat \<Rightarrow> bool) \<Rightarrow> jsstring \<Rightarrow> jsstring list" where
  "splitOn P [] = [[]]"
| "splitOn P (c # cs) =
     (if P c then [] # splitOn P cs
      else (case splitOn P cs of [] \<Rightarrow> [[c]] | p # ps \<Rightarrow> (c # p) # ps))"

fun startsWith :: "jsstring \<Rightarrow> jsstring \<Rightarrow> bool" where
  "startsWith s [] = True"
| "startsWith [] (k # ks) = False"
| "startsWith (c # cs) (k # ks) = (c = k \<and> startsWith cs ks)"

fun jsIncludes :: "jsstring \<Rightarrow> jsstring \<Rightarrow> bool" where
  "jsIncludes [] k = (k = [])"
| "jsIncludes (c # cs) k = (startsWith (c # cs) k \<or> jsIncludes cs k)"

definition keywordsOf :: "jsstring \<Rightarrow> jsstring list" where
  "keywordsOf countryFilter = filter (\<lambda>k. k \<noteq> []) (map trim (splitOn isComma countryFilter))"

definition compareExport :: "ProcessedData \<Rightarrow> ProcessedData \<Rightarrow> rat" where
  "compareExport a b = exportValue b - exportValue a"

definition bcgFiltered :: "ProcessedData list \<Rightarrow> int \<Rightarrow> rat \<Rightarrow> rat \<Rightarrow> jsstring \<Rightarrow> ProcessedData list" where
  "bcgFiltered data yr minShare maxShare countryFilter =
     (let f1 = filter (\<lambda>d. year d = yr \<and> yoyGrowth d \<noteq> None \<and> marketShare d > 0) data;
          f2 = filter (\<lambda>d. let sharePct = marketShare d * 100
                            in sharePct \<ge> minShare \<and> sharePct \<le> maxShare) f1;
          f3 = (if trim countryFilter \<noteq> [] then
                  (let keywords = keywordsOf countryFilter
                   in if length keywords > 0
                      then filter (\<lambda>d. list_ex (\<lambda>k. jsIncludes (partnerName d) k) keywords) f2
                      else f2)
                else f2)
      in f3)"

definition bcgTop :: "ProcessedData list \<Rightarrow> int \<Rightarrow> rat \<Rightarrow> rat \<Rightarrow> jsstring \<Rightarrow> ProcessedData list" where
  "bcgTop data yr minShare maxShare countryFilter =
     take 35 (jsSort compareExport (bcgFiltered data yr minShare maxShare countryFilter))"

record PlotRow = ProcessedData +
  yPlot :: rat
  label :: jsstring
  fill :: jsstring

definition xRefOf :: "ProcessedData list \<Rightarrow> rat" where
  "xRefOf filtered = sum_list (map marketShare filtered) / of_nat (length filtered)"

definition plotRow :: "rat \<Rightarrow> rat \<Rightarrow> rat \<Rightarrow> ProcessedData \<Rightarrow> nat \<Rightarrow> PlotRow" where
  "plotRow yMin yMax calculatedXRef d index =
     (let y = max yMin (min (case yoyGrowth d of None \<Rightarrow> 0 | Some g \<Rightarrow> g) yMax);
          isHighShare = (marketShare d \<ge> calculatedXRef);
          isHighGrowth = (y \<ge> 0);
          colour = (if isHighShare \<and> isHighGrowth then asc ''#10b981''
                    else if \<not> isHighShare \<and> isHighGrowth then asc ''#f59e0b''
                    else if isHighShare \<and> \<not> isHighGrowth then asc ''#3b82f6''
                    else asc ''#ef4444'')
      in \<lparr>year = year d, partnerName = partnerName d, exportValue = exportValue d,
          marketShare = marketShare d, yoyGrowth = yoyGrowth d, prevExport = prevExport d,
          yPlot = y, label = (if index < 20 then partnerName d else []), fill = colour\<rparr>)"

definition plotData ::
  "ProcessedData list \<Rightarrow> int \<Rightarrow> rat \<Rightarrow> rat \<Rightarrow> rat \<Rightarrow> rat \<Rightarrow> jsstring \<Rightarrow> PlotRow list" where
  "plotData data yr yMin yMax minShare maxShare countryFilter =
     (let filtered = bcgTop data yr minShare maxShare countryFilter
      in if length filtered = 0 then []
         else map (\<lambda>(d, index). plotRow yMin yMax (xRefOf filtered) d index)
                  (zip filtered [0..<length filtered]))"

section \<open>Auxiliary notions and example inputs\<close>

text \<open>
  \<open>bump\<close> is the update that \<open>aggStep\<close> applies to every entry, and \<open>inYear\<close> the
  export value of a row counted for one year only.
\<close>

definition bump :: "jsstring \<Rightarrow> rat \<Rightarrow> (jsstring \<times> AggRow) \<Rightarrow> (jsstring \<times> AggRow)" where
  "bump key v = (\<lambda>(k, r). if k = key then (k, r\<lparr>exportValue := exportValue r + v\<rparr>) else (k, r))"

definition inYear :: "int \<Rightarrow> 'a AggRow_scheme \<Rightarrow> rat" where
  "inYear y r = (if year r = y then exportValue r else 0)"

text \<open>
  \<open>hasDecimals f s\<close>: the string \<open>s\<close> is an optional minus sign, at least one digit, a
  point and exactly \<open>f\<close> digits.
\<close>

definition hasDecimals :: "nat \<Rightarrow> jsstring \<Rightarrow> bool" where
  "hasDecimals f s =
     (let body = (if s \<noteq> [] \<and> hd s = 45 then tl s else s);
          ip = takeWhile isDigit body;
          rest = dropWhile isDigit body
      in ip \<noteq> [] \<and> rest \<noteq> [] \<and> hd rest = 46 \<and> length (tl rest) = f \<and> list_all isDigit (tl rest))"

text \<open>
  \<open>scenario\<close>: partner A with the text \<open>1,000\<close> and partner B with the number 500 in
  period 202301, partner A with 800 in period 202201, and a record whose period is the
  text \<open>invalid\<close>.
\<close>

definition scenario :: "RawData list" where
  "scenario =
     [\<lparr>period = PNum 202301, partner = Some (asc ''A''), rmb = AStr (asc ''1,000'')\<rparr>,
      \<lparr>period = PNum 202301, partner = Some (asc ''B''), rmb = ANum 500\<rparr>,
      \<lparr>period = PNum 202201, partner = Some (asc ''A''), rmb = ANum 800\<rparr>,
      \<lparr>period = PStr (asc ''invalid''), partner = Some (asc ''A''), rmb = ANum 800\<rparr>]"

text \<open>\<open>cancelling\<close>: one year in which the export values 5 and -5 add up to zero.\<close>

definition cancelling :: "RawData list" where
  "cancelling =
     [\<lparr>period = PStr (asc ''2023''), partner = Some (asc ''A''), rmb = ANum 5\<rparr>,
      \<lparr>period = PStr (asc ''2023''), partner = Some (asc ''B''), rmb = AStr (asc ''-5'')\<rparr>]"

text \<open>\<open>allZero\<close>: one year in which every export value coerces to zero.\<close>

definition allZero :: "RawData list" where
  "allZero =
     [\<lparr>period = PStr (asc ''2023''), partner = Some (asc ''A''), rmb = ANum 0\<rparr>,
      \<lparr>period = PStr (asc ''2023''), partner = None, rmb = AStr (asc ''n/a'')\<rparr>]"

section \<open>Decimal rendering and the aggregation key\<close>

text \<open>
  \<open>String\<close> of an integer is injective, and so is the key \<open>year-partner\<close> of the
  aggregation in the pair of year and partner name.
\<close>

lemma natDigits_ne: "natDigits n \<noteq> []"
  by (subst natDigits.simps) simp

lemma natDigits_digits: "c \<in> set (natDigits n) \<Longrightarrow> isDigit c"
proof (induction n arbitrary: c rule: natDigits.induct)
  case (1 n)
  show ?case
  proof (cases "n < 10")
    case True
    with "1.prems" show ?thesis
      by (subst (asm) natDigits.simps) (simp add: isDigit_def)
  next
    case False
    from "1.prems" have "c \<in> set (natDigits (n div 10)) \<or> c = 48 + n mod 10"
      using False by (subst (asm) natDigits.simps) auto
    then show ?thesis
    proof
      assume "c \<in> set (natDigits (n div 10))"
      then show ?thesis using "1.IH" False by simp
    next
      assume "c = 48 + n mod 10"
      then show ?thesis by (simp add: isDigit_def)
    qed
  qed
qed

lemma digitsVal_snoc: "digitsVal (ds @ [c]) = 10 * digitsVal ds + (c - 48)"
  by (simp add: digitsVal_def)

lemma digitsVal_natDigits: "digitsVal (natDigits n) = n"
proof (induction n rule: natDigits.induct)
  case (1 n)
  show ?case
  proof (cases "n < 10")
    case True
    then show ?thesis by (subst natDigits.simps) (simp add: digitsVal_def)
  next
    case False
    then have "digitsVal (natDigits n) = 10 * digitsVal (natDigits (n div 10)) + n mod 10"
      by (subst natDigits.simps) (simp add: digitsVal_snoc)
    also have "\<dots> = 10 * (n div 10) + n mod 10" using "1.IH" False by simp
    finally show ?thesis by simp
  qed
qed

lemma natDigits_inj: "natDigits a = natDigits b \<Longrightarrow> a = b"
  by (metis digitsVal_natDigits)

text \<open>
  A key is read back unambiguously: the sign is its first code unit, the digits end at
  the first \<open>-\<close> after them, and the partner name is the rest.
\<close>

lemma not_digit_45: "\<not> isDigit 45" by (simp add: isDigit_def)

lemma hd_natDigits: "hd (natDigits n) \<noteq> 45"
  using natDigits_digits[of "hd (natDigits n)" n] natDigits_ne[of n] not_digit_45
  by (metis hd_in_set)

lemma takeWhile_digits: "takeWhile isDigit (natDigits n @ 45 # r) = natDigits n"
  by (simp add: takeWhile_append2 natDigits_digits not_digit_45 takeWhile_append)

lemma dropWhile_digits: "dropWhile isDigit (natDigits n @ 45 # r) = 45 # r"
  by (simp add: dropWhile_append2 natDigits_digits not_digit_45 dropWhile_append)

lemma key_sign: "(hd (String_int y @ 45 # r) = 45) = (y < 0)"
  using hd_natDigits[of "nat y"] natDigits_ne[of "nat y"]
  by (simp add: String_int_def hd_append)

lemma key_body:
  "(if hd (String_int y @ 45 # r) = 45 then tl (String_int y @ 45 # r) else String_int y @ 45 # r) =
   natDigits (nat \<bar>y\<bar>) @ 45 # r"
  using hd_natDigits[of "nat y"] natDigits_ne[of "nat y"]
  by (simp add: String_int_def hd_append)

lemma key_inj:
  assumes "String_int a @ 45 # r = String_int b @ 45 # s"
  shows "a = b \<and> r = s"
proof -
  have sg: "(a < 0) = (b < 0)" using assms key_sign by metis
  have "natDigits (nat \<bar>a\<bar>) @ 45 # r = natDigits (nat \<bar>b\<bar>) @ 45 # s"
    using assms key_body by metis
  then have d: "natDigits (nat \<bar>a\<bar>) = natDigits (nat \<bar>b\<bar>)" and r: "r = s"
    using takeWhile_digits dropWhile_digits by (metis, metis list.inject)
  from d have "nat \<bar>a\<bar> = nat \<bar>b\<bar>" by (rule natDigits_inj)
  with sg have "a = b" by arith
  with r show ?thesis by simp
qed

lemma String_int_inj: "String_int a = String_int b \<Longrightarrow> a = b"
  using key_inj[of a "[]" b "[]"] by simp

lemma aggKey_inj: "aggKey r = aggKey s \<Longrightarrow> year r = year s \<and> partnerName r = partnerName s"
  using key_inj by (simp add: aggKey_def)

lemma natDigits_small: "n < 10 \<Longrightarrow> natDigits n = [48 + n]"
  by (subst natDigits.simps) simp

lemma natDigits_large: "10 \<le> n \<Longrightarrow> natDigits n = natDigits (n div 10) @ [48 + n mod 10]"
  by (subst natDigits.simps) simp

section \<open>Aggregation\<close>

text \<open>
  Every step of the aggregation keeps the keys distinct and equal to the key of their
  row, and adds the export value of the current row to the sum of its year.
\<close>

lemma aggStep_alt:
  "aggStep acc cur =
     map (bump (aggKey cur) (exportValue cur))
       (if map_of acc (aggKey cur) = None
        then acc @ [(aggKey cur, \<lparr>year = year cur, partnerName = partnerName cur, exportValue = 0\<rparr>)]
        else acc)"
  by (simp add: aggStep_def bump_def Let_def)

lemma fst_bump: "fst (bump key v p) = fst p"
  by (cases p) (simp add: bump_def)

lemma map_fst_bump: "map fst (map (bump key v) acc) = map fst acc"
  by (induction acc) (simp_all add: fst_bump)

lemma aggKey_bump: "aggKey (snd (bump key v p)) = aggKey (snd p)"
  by (cases p) (simp add: bump_def aggKey_def)

lemma year_bump: "year (snd (bump key v p)) = year (snd p)"
  by (cases p) (simp add: bump_def)

lemma bump_other: "fst p \<noteq> key \<Longrightarrow> bump key v p = p"
  by (cases p) (simp add: bump_def)

lemma map_bump_notin: "key \<notin> fst ` set acc \<Longrightarrow> map (bump key v) acc = acc"
  by (induction acc) (auto simp: bump_other)

lemma aggStep_fst:
  "map fst (aggStep acc cur) =
     (if aggKey cur \<in> fst ` set acc then map fst acc else map fst acc @ [aggKey cur])"
  by (simp add: aggStep_alt map_fst_bump fst_bump map_of_eq_None_iff)

lemma aggStep_distinct: "distinct (map fst acc) \<Longrightarrow> distinct (map fst (aggStep acc cur))"
  by (simp add: aggStep_fst)

lemma aggStep_keyed:
  assumes "\<forall>p\<in>set acc. fst p = aggKey (snd p)"
  shows "\<forall>p\<in>set (aggStep acc cur). fst p = aggKey (snd p)"
proof -
  have new: "aggKey \<lparr>year = year cur, partnerName = partnerName cur, exportValue = 0\<rparr> = aggKey cur"
    by (simp add: aggKey_def)
  show ?thesis using assms new
    by (auto simp: aggStep_alt fst_bump aggKey_bump split: if_splits)
qed

lemma sum_filter_inYear:
  "sum_list (map exportValue (filter (\<lambda>r. year r = y) rows)) = sum_list (map (inYear y) rows)"
  by (induction rows) (simp_all add: inYear_def)

lemma inYear_bump:
  "inYear y (snd (bump key v p)) =
     inYear y (snd p) + (if fst p = key \<and> year (snd p) = y then v else 0)"
  by (cases p) (simp add: bump_def inYear_def)

lemma sum_bump_notin:
  "key \<notin> fst ` set acc \<Longrightarrow>
   sum_list (map (\<lambda>p. inYear y (snd (bump key v p))) acc) =
   sum_list (map (\<lambda>p. inYear y (snd p)) acc)"
  by (induction acc) (auto simp: bump_other)

lemma sum_bump:
  assumes "distinct (map fst acc)" and "(key, r0) \<in> set acc"
  shows "sum_list (map (\<lambda>p. inYear y (snd (bump key v p))) acc) =
         sum_list (map (\<lambda>p. inYear y (snd p)) acc) + (if year r0 = y then v else 0)"
  using assms
proof (induction acc)
  case Nil
  then show ?case by simp
next
  case (Cons p acc)
  show ?case
  proof (cases "p = (key, r0)")
    case True
    then have "key \<notin> fst ` set acc" using Cons.prems(1) by simp
    then have "sum_list (map (\<lambda>p. inYear y (snd (bump key v p))) acc) =
               sum_list (map (\<lambda>p. inYear y (snd p)) acc)"
      by (rule sum_bump_notin)
    moreover have "inYear y (snd (bump key v p)) = inYear y (snd p) + (if year r0 = y then v else 0)"
      using True by (simp add: inYear_bump)
    ultimately show ?thesis by simp
  next
    case False
    then have mem: "(key, r0) \<in> set acc" using Cons.prems(2) by simp
    then have "key \<in> fst ` set acc" by force
    then have "fst p \<noteq> key" using Cons.prems(1) by auto
    then show ?thesis using Cons.IH mem Cons.prems(1) by (simp add: inYear_bump)
  qed
qed

lemma aggStep_sum:
  assumes d: "distinct (map fst acc)" and k: "\<forall>p\<in>set acc. fst p = aggKey (snd p)"
  shows "sum_list (map (inYear y) (map snd (aggStep acc cur))) =
         sum_list (map (inYear y) (map snd acc)) + inYear y cur"
proof (cases "aggKey cur \<in> fst ` set acc")
  case True
  then obtain r0 where r0: "(aggKey cur, r0) \<in> set acc" by force
  with k have "aggKey cur = aggKey r0" by force
  then have yr: "year r0 = year cur" using aggKey_inj by metis
  have "map_of acc (aggKey cur) \<noteq> None" using True by (simp add: map_of_eq_None_iff)
  then have "aggStep acc cur = map (bump (aggKey cur) (exportValue cur)) acc"
    by (simp add: aggStep_alt)
  then show ?thesis using sum_bump[OF d r0, of y "exportValue cur"] yr
    by (simp add: o_def inYear_def)
next
  case False
  then have n: "map_of acc (aggKey cur) = None" by (simp add: map_of_eq_None_iff)
  have "map (bump (aggKey cur) (exportValue cur)) acc = acc" using False by (rule map_bump_notin)
  then have "aggStep acc cur =
      acc @ [(aggKey cur, \<lparr>year = year cur, partnerName = partnerName cur,
                            exportValue = 0 + exportValue cur\<rparr>)]"
    using n by (simp add: aggStep_alt bump_def)
  then show ?thesis by (simp add: inYear_def)
qed

lemma foldl_aggStep_inv:
  assumes "distinct (map fst acc)" and "\<forall>p\<in>set acc. fst p = aggKey (snd p)"
  shows "distinct (map fst (foldl aggStep acc cs)) \<and>
         (\<forall>p\<in>set (foldl aggStep acc cs). fst p = aggKey (snd p)) \<and>
         sum_list (map (inYear y) (map snd (foldl aggStep acc cs))) =
           sum_list (map (inYear y) (map snd acc)) + sum_list (map (inYear y) cs)"
  using assms
proof (induction cs arbitrary: acc)
  case Nil
  then show ?case by simp
next
  case (Cons c cs)
  have d: "distinct (map fst (aggStep acc c))" using Cons.prems(1) by (rule aggStep_distinct)
  have k: "\<forall>p\<in>set (aggStep acc c). fst p = aggKey (snd p)" using Cons.prems(2) by (rule aggStep_keyed)
  show ?case
    using Cons.IH[OF d k] aggStep_sum[OF Cons.prems(1) Cons.prems(2), of y c]
    by (simp add: add.assoc)
qed

lemma aggregatedArray_distinct: "distinct (map aggKey (aggregatedArray cs))"
proof -
  have a: "distinct (map fst (aggregated cs))" and b: "\<forall>p\<in>set (aggregated cs). fst p = aggKey (snd p)"
    using foldl_aggStep_inv[of "[]" cs] by (simp_all add: aggregated_def)
  from b have "map fst (aggregated cs) = map aggKey (aggregatedArray cs)"
    by (simp add: aggregatedArray_def)
  with a show ?thesis by simp
qed

lemma aggregatedArray_sum:
  "sum_list (map (inYear y) (aggregatedArray cs)) = sum_list (map (inYear y) cs)"
  using foldl_aggStep_inv[of "[]" cs y] by (simp add: aggregated_def aggregatedArray_def)

lemma aggregatedArray_unique:
  assumes "r \<in> set (aggregatedArray cs)" and "s \<in> set (aggregatedArray cs)"
    and "year r = year s" and "partnerName r = partnerName s"
  shows "r = s"
proof -
  have "aggKey r = aggKey s" using assms(3,4) by (simp add: aggKey_def)
  then show ?thesis
    using aggregatedArray_distinct[of cs] assms(1,2) by (meson distinct_map inj_onD)
qed

section \<open>Totals and sorting\<close>

lemma orZero_Some: "orZero (Some x) = x"
  by (simp add: orZero_def)

lemma totalStep_lookup:
  "totalStep m c (String_int y) =
     (if year c = y then Some (orZero (m (String_int y)) + exportValue c) else m (String_int y))"
  using String_int_inj by (auto simp: totalStep_def)

lemma inYear_eq: "year c = y \<Longrightarrow> inYear y c = exportValue c"
  by (simp add: inYear_def)

lemma inYear_neq: "year c \<noteq> y \<Longrightarrow> inYear y c = 0"
  by (simp add: inYear_def)

lemma sum_inYear_none: "\<forall>r\<in>set rows. year r \<noteq> y \<Longrightarrow> sum_list (map (inYear y) rows) = 0"
  by (induction rows) (simp_all add: inYear_neq)

lemma foldl_totalStep:
  "foldl totalStep m rows (String_int y) =
     (if \<exists>r\<in>set rows. year r = y
      then Some (orZero (m (String_int y)) + sum_list (map (inYear y) rows))
      else m (String_int y))"
proof (induction rows arbitrary: m)
  case Nil
  then show ?case by simp
next
  case (Cons c rows)
  show ?case
    using sum_inYear_none[of rows y]
    by (auto simp: Cons.IH totalStep_lookup orZero_Some inYear_eq inYear_neq)
qed

lemma globalTotal_lookup:
  "globalTotal rows (String_int y) =
     (if \<exists>r\<in>set rows. year r = y then Some (sum_list (map (inYear y) rows)) else None)"
  by (simp add: globalTotal_def foldl_totalStep orZero_def)

lemma shareDivisor_total:
  "shareDivisor (globalTotal rows) y =
     (if sum_list (map (inYear y) rows) = 0 then 1 else sum_list (map (inYear y) rows))"
  using sum_inYear_none[of rows y]
  by (auto simp: shareDivisor_def globalTotal_lookup)

subsection \<open>The stable sort\<close>

text \<open>
  \<open>jsSort\<close> permutes its input, and arranges it by any comparator that is total and
  transitive in the sense of \<open>cmp a b \<le> 0\<close>.
\<close>

lemma mset_insertBy: "mset (insertBy cmp x xs) = add_mset x (mset xs)"
  by (induction xs) simp_all

lemma mset_jsSort: "mset (jsSort cmp xs) = mset xs"
  by (induction xs) (simp_all add: jsSort_def mset_insertBy)

lemma set_jsSort: "set (jsSort cmp xs) = set xs"
  using mset_jsSort by (metis set_mset_mset)

lemma length_jsSort: "length (jsSort cmp xs) = length xs"
  using mset_jsSort by (metis size_mset)

lemma sum_list_mset_cong:
  fixes f :: "'a \<Rightarrow> rat"
  assumes "mset xs = mset ys"
  shows "sum_list (map f (filter P xs)) = sum_list (map f (filter P ys))"
proof -
  have "mset (map f (filter P xs)) = mset (map f (filter P ys))"
    using assms by (metis mset_filter mset_map)
  then show ?thesis by (metis sum_mset_sum_list)
qed

lemma set_insertBy: "set (insertBy cmp x xs) = insert x (set xs)"
  by (induction xs) auto

lemma sorted_insertBy:
  assumes total: "\<And>a b. cmp a b \<le> 0 \<or> cmp b a \<le> 0"
    and trans: "\<And>a b c. cmp a b \<le> 0 \<Longrightarrow> cmp b c \<le> 0 \<Longrightarrow> cmp a c \<le> 0"
    and "sorted_wrt (\<lambda>a b. cmp a b \<le> 0) xs"
  shows "sorted_wrt (\<lambda>a b. cmp a b \<le> 0) (insertBy cmp x xs)"
  using assms(3)
proof (induction xs)
  case Nil
  then show ?case by simp
next
  case (Cons y ys)
  show ?case
  proof (cases "cmp x y \<le> 0")
    case True
    then have "\<forall>z\<in>set ys. cmp x z \<le> 0" using Cons.prems trans by auto
    with True Cons.prems show ?thesis by simp
  next
    case False
    then have "cmp y x \<le> 0" using total by blast
    with False Cons show ?thesis by (auto simp: set_insertBy)
  qed
qed

lemma sorted_jsSort:
  assumes total: "\<And>a b. cmp a b \<le> 0 \<or> cmp b a \<le> 0"
    and trans: "\<And>a b c. cmp a b \<le> 0 \<Longrightarrow> cmp b c \<le> 0 \<Longrightarrow> cmp a c \<le> 0"
  shows "sorted_wrt (\<lambda>a b. cmp a b \<le> 0) (jsSort cmp xs)"
proof (induction xs)
  case Nil
  then show ?case by (simp add: jsSort_def)
next
  case (Cons x xs)
  have "jsSort cmp (x # xs) = insertBy cmp x (jsSort cmp xs)" by (simp add: jsSort_def)
  then show ?case using sorted_insertBy[OF total trans Cons.IH] by simp
qed

lemma compareRows_le:
  "(compareRows a b \<le> 0) = (year a < year b \<or> (year a = year b \<and> exportValue b \<le> exportValue a))"
  by (auto simp: compareRows_def)

section \<open>The stages of the pipeline\<close>

lemma cleanedData_Cons:
  "cleanedData (x # xs) = (case cleanRow x of None \<Rightarrow> cleanedData xs | Some c \<Rightarrow> c # cleanedData xs)"
  by (simp add: cleanedData_def map_filter_simps split: option.splits)

lemma cleanedData_Nil: "cleanedData [] = []"
  by (simp add: cleanedData_def map_filter_simps)

lemma cleanedData_sum:
  "sum_list (map (inYear y) (cleanedData raw)) =
   sum_list (map (\<lambda>r. coerceRmb (rmb r)) (filter (\<lambda>r. extractYear (period r) = Some y) raw))"
proof (induction raw)
  case Nil
  then show ?case by (simp add: cleanedData_Nil)
next
  case (Cons x xs)
  show ?case
  proof (cases "extractYear (period x)")
    case None
    then show ?thesis using Cons.IH by (simp add: cleanedData_Cons cleanRow_def)
  next
    case (Some z)
    then show ?thesis using Cons.IH by (simp add: cleanedData_Cons cleanRow_def inYear_def)
  qed
qed

lemma cleanedData_filter:
  "cleanedData (filter (\<lambda>r. extractYear (period r) \<noteq> None) raw) = cleanedData raw"
proof (induction raw)
  case Nil
  then show ?case by simp
next
  case (Cons x xs)
  then show ?case by (cases "extractYear (period x)") (simp_all add: cleanedData_Cons cleanRow_def)
qed

text \<open>
  The steps after the aggregation keep the year, the partner name and the export value
  of every row, and the sort only permutes the rows.
\<close>

lemma withMarketShare_fields:
  assumes "w \<in> set (withMarketShare rows)"
  shows "\<exists>r\<in>set rows. year w = year r \<and> partnerName w = partnerName r \<and> exportValue w = exportValue r
           \<and> marketShare w = exportValue r / shareDivisor (globalTotal rows) (year r)"
  using assms by (auto simp: withMarketShare_def)

lemma withMarketShare_inYear:
  "map (inYear y) (withMarketShare rows) = map (inYear y) rows"
  by (simp add: withMarketShare_def inYear_def)

lemma growthRow_fields:
  "year (growthRow ws w) = year w" "partnerName (growthRow ws w) = partnerName w"
  "exportValue (growthRow ws w) = exportValue w" "marketShare (growthRow ws w) = marketShare w"
  by (simp_all add: growthRow_def Let_def)

lemma finalData_inYear: "map (inYear y) (finalData ws) = map (inYear y) ws"
  by (simp add: finalData_def inYear_def growthRow_fields)

lemma processData_mset:
  "mset (processData raw) = mset (finalData (withMarketShare (aggregatedArray (cleanedData raw))))"
  by (simp add: processData_def mset_jsSort)

lemma processData_set:
  "set (processData raw) = set (finalData (withMarketShare (aggregatedArray (cleanedData raw))))"
  by (simp add: processData_def set_jsSort)

lemma year_sum_processData:
  "sum_list (map exportValue (filter (\<lambda>r. year r = y) (processData raw))) =
   sum_list (map (inYear y) (aggregatedArray (cleanedData raw)))"
proof -
  have "sum_list (map exportValue (filter (\<lambda>r. year r = y) (processData raw))) =
        sum_list (map exportValue (filter (\<lambda>r. year r = y)
           (finalData (withMarketShare (aggregatedArray (cleanedData raw))))))"
    by (rule sum_list_mset_cong) (rule processData_mset)
  also have "\<dots> = sum_list (map (inYear y) (finalData (withMarketShare (aggregatedArray (cleanedData raw)))))"
    by (rule sum_filter_inYear)
  finally show ?thesis by (simp add: finalData_inYear withMarketShare_inYear)
qed

lemma sum_list_divide:
  fixes f :: "'a \<Rightarrow> rat"
  shows "sum_list (map (\<lambda>r. f r / d) xs) = sum_list (map f xs) / d"
  by (induction xs) (simp_all add: add_divide_distrib)

lemma withMarketShare_share_sum:
  "sum_list (map marketShare (filter (\<lambda>r. year r = y) (withMarketShare rows))) =
   sum_list (map (inYear y) rows) / shareDivisor (globalTotal rows) y"
proof -
  have "\<And>g. sum_list (map marketShare (filter (\<lambda>r. year r = y)
            (map (\<lambda>row. \<lparr>year = year row, partnerName = partnerName row,
                         exportValue = exportValue row,
                         marketShare = exportValue row / g (year row)\<rparr>) rows))) =
        sum_list (map (\<lambda>r. inYear y r / g y) rows)"
    by (induction rows) (simp_all add: inYear_def)
  then show ?thesis by (simp add: withMarketShare_def sum_list_divide)
qed

lemma finalData_share_sum:
  "sum_list (map marketShare (filter (\<lambda>r. year r = y) (finalData ws))) =
   sum_list (map marketShare (filter (\<lambda>r. year r = y) ws))"
  unfolding finalData_def
proof -
  have "\<And>vs. sum_list (map marketShare (filter (\<lambda>r. year r = y) (map (growthRow vs) ws))) =
            sum_list (map marketShare (filter (\<lambda>r. year r = y) ws))"
    by (induction ws) (simp_all add: growthRow_fields)
  then show "sum_list (map marketShare (filter (\<lambda>r. year r = y) (map (growthRow ws) ws))) =
             sum_list (map marketShare (filter (\<lambda>r. year r = y) ws))" .
qed

lemma withMarketShare_unique:
  assumes "v \<in> set (withMarketShare (aggregatedArray cs))"
    and "w \<in> set (withMarketShare (aggregatedArray cs))"
    and "year v = year w" and "partnerName v = partnerName w"
  shows "v = w"
proof -
  let ?g = "\<lambda>row. \<lparr>year = year row, partnerName = partnerName row, exportValue = exportValue row,
      marketShare = exportValue row / shareDivisor (globalTotal (aggregatedArray cs)) (year row)\<rparr>"
  obtain r where r: "r \<in> set (aggregatedArray cs)" "v = ?g r"
    using assms(1) by (auto simp: withMarketShare_def)
  obtain s where s: "s \<in> set (aggregatedArray cs)" "w = ?g s"
    using assms(2) by (auto simp: withMarketShare_def)
  have "year r = year s" "partnerName r = partnerName s" using assms(3,4) r(2) s(2) by simp_all
  then have "r = s" using aggregatedArray_unique r(1) s(1) by blast
  then show ?thesis using r(2) s(2) by simp
qed

lemma find_unique:
  assumes "w \<in> set ws" and "P w" and "\<And>v. v \<in> set ws \<Longrightarrow> P v \<Longrightarrow> v = w"
  shows "find P ws = Some w"
proof (cases "find P ws")
  case None
  then show ?thesis using assms(1,2) by (simp add: find_None_iff)
next
  case (Some v)
  then have "v \<in> set ws \<and> P v" by (metis find_Some_iff nth_mem)
  then show ?thesis using assms(3) Some by simp
qed

lemma find_SomeD: "find P ws = Some v \<Longrightarrow> v \<in> set ws \<and> P v"
  by (metis find_Some_iff nth_mem)

lemma growthRow_prev_found:
  assumes "find (\<lambda>r. year r = year w - 1 \<and> partnerName r = partnerName w) ws = Some v"
  shows "prevExport (growthRow ws w) = exportValue v"
    and "yoyGrowth (growthRow ws w) =
           (if exportValue v = 0 then None
            else Some ((exportValue w - exportValue v) / \<bar>exportValue v\<bar>))"
  using assms by (simp_all add: growthRow_def Let_def)

lemma growthRow_prev_none:
  assumes "find (\<lambda>r. year r = year w - 1 \<and> partnerName r = partnerName w) ws = None"
  shows "prevExport (growthRow ws w) = 0" and "yoyGrowth (growthRow ws w) = None"
  using assms by (simp_all add: growthRow_def Let_def)

lemma growthRow_recompute:
  "(prevExport (growthRow ws w) = 0) = (yoyGrowth (growthRow ws w) = None)"
  "yoyGrowth (growthRow ws w) \<noteq> None \<Longrightarrow>
     yoyGrowth (growthRow ws w) =
       Some ((exportValue (growthRow ws w) - prevExport (growthRow ws w)) / \<bar>prevExport (growthRow ws w)\<bar>)"
  by (auto simp: growthRow_def Let_def split: if_splits)

lemma processData_rows:
  "set (processData raw) =
     growthRow (withMarketShare (aggregatedArray (cleanedData raw))) `
       set (withMarketShare (aggregatedArray (cleanedData raw)))"
  by (simp add: processData_set finalData_def)

lemma share_divisor_of_row:
  assumes row: "row \<in> set (processData raw)"
  shows "marketShare row =
           exportValue row / shareDivisor (globalTotal (aggregatedArray (cleanedData raw))) (year row) \<and>
         shareDivisor (globalTotal (aggregatedArray (cleanedData raw))) (year row) =
           (if sum_list (map exportValue (filter (\<lambda>r. year r = year row) (processData raw))) = 0 then 1
            else sum_list (map exportValue (filter (\<lambda>r. year r = year row) (processData raw)))) \<and>
         shareDivisor (globalTotal (aggregatedArray (cleanedData raw))) (year row) \<noteq> 0"
proof -
  let ?agg = "aggregatedArray (cleanedData raw)"
  let ?ws = "withMarketShare ?agg"
  obtain w where w: "w \<in> set ?ws" "row = growthRow ?ws w"
    using row by (auto simp: processData_rows)
  obtain r where r: "r \<in> set ?agg" "year w = year r" "exportValue w = exportValue r"
    "marketShare w = exportValue r / shareDivisor (globalTotal ?agg) (year r)"
    using withMarketShare_fields[OF w(1)] by blast
  have 1: "marketShare row = exportValue row / shareDivisor (globalTotal ?agg) (year row)"
    using w(2) r by (simp add: growthRow_fields)
  have 2: "shareDivisor (globalTotal ?agg) (year row) =
           (if sum_list (map exportValue (filter (\<lambda>r. year r = year row) (processData raw))) = 0 then 1
            else sum_list (map exportValue (filter (\<lambda>r. year r = year row) (processData raw))))"
    by (simp add: shareDivisor_total year_sum_processData)
  from 1 2 show ?thesis by auto
qed

section \<open>Formatting, export rows and the plotted set\<close>

subsection \<open>The shape of \<open>toFixed\<close>\<close>

lemma digitsVal_zeros: "digitsVal (replicate z 48 @ m) = digitsVal m"
proof -
  have "foldl (\<lambda>a c. 10 * a + (c - 48)) (0::nat) (replicate z 48) = 0"
    by (induction z) simp_all
  then show ?thesis by (simp add: digitsVal_def)
qed

lemma toFixed_shape:
  assumes "0 < f"
  shows "\<exists>ip fp. toFixed f x = (if x < 0 then [45] else []) @ ip @ 46 # fp \<and>
           ip \<noteq> [] \<and> length fp = f \<and> (\<forall>c\<in>set (ip @ fp). isDigit c) \<and>
           digitsVal (ip @ fp) = nat \<lfloor>\<bar>x\<bar> * 10 ^ f + 1 / 2\<rfloor>"
proof -
  define n where "n = nat \<lfloor>\<bar>x\<bar> * 10 ^ f + 1 / 2\<rfloor>"
  define m' where "m' = replicate (Suc f - length (natDigits n)) 48 @ natDigits n"
  define k where "k = length m' - f"
  have len: "Suc f \<le> length m'" by (simp add: m'_def)
  have tf: "toFixed f x = (if x < 0 then [45] else []) @ take k m' @ 46 # drop k m'"
    using assms by (simp add: toFixed_def Let_def n_def m'_def k_def)
  have 1: "take k m' \<noteq> []" using len by (auto simp: k_def)
  have 2: "length (drop k m') = f" using len by (simp add: k_def)
  have 3: "\<forall>c\<in>set m'. isDigit c"
    using natDigits_digits[of _ n] by (auto simp: m'_def isDigit_def)
  have 4: "digitsVal m' = n" by (simp add: m'_def digitsVal_zeros digitsVal_natDigits)
  have 5: "\<forall>c\<in>set (take k m' @ drop k m'). isDigit c" using 3 by simp
  have 6: "digitsVal (take k m' @ drop k m') = nat \<lfloor>\<bar>x\<bar> * 10 ^ f + 1 / 2\<rfloor>"
    using 4 by (simp add: n_def)
  from tf 1 2 5 6 show ?thesis by blast
qed

subsection \<open>The cleaned rows\<close>

lemma cleanedData_values:
  "map exportValue (cleanedData raw) =
   map (\<lambda>r. coerceRmb (rmb r)) (filter (\<lambda>r. extractYear (period r) \<noteq> None) raw)"
proof (induction raw)
  case Nil
  then show ?case by (simp add: cleanedData_Nil)
next
  case (Cons x xs)
  then show ?case by (cases "extractYear (period x)") (simp_all add: cleanedData_Cons cleanRow_def)
qed

subsection \<open>The export rows\<close>

lemma csv_rows:
  "downloadText unparse data = 65279 # unparse (csvData data) \<and>
   length (csvData data) = length (filter (\<lambda>r. yoyGrowth r \<noteq> None) data) \<and>
   (\<forall>i < length (csvData data).
      (let r = filter (\<lambda>r. yoyGrowth r \<noteq> None) data ! i; row = csvData data ! i in
       map fst row = [colYear, colPartner, colShare, colGrowth, colShareShown, colGrowthShown] \<and>
       colExport \<notin> set (map fst row) \<and>
       map snd row =
         [CNum (of_int (year r)), CStr (partnerName r), CNum (marketShare r),
          CNum (the (yoyGrowth r)),
          CStr (toFixed 2 (marketShare r * 100) @ [37]),
          CStr (toFixed 1 (the (yoyGrowth r) * 100) @ [37])]))"
proof -
  have cols: "colExport \<notin> set [colYear, colPartner, colShare, colGrowth, colShareShown, colGrowthShown]"
    by (simp add: colExport_def colYear_def colPartner_def colShare_def colGrowth_def
        colShareShown_def colGrowthShown_def)
  have row: "map fst (csvRowOf r) = [colYear, colPartner, colShare, colGrowth, colShareShown, colGrowthShown]"
    for r by (simp add: csvRowOf_def)
  have vals: "map snd (csvRowOf r) =
         [CNum (of_int (year r)), CStr (partnerName r), CNum (marketShare r),
          CNum (the (yoyGrowth r)),
          CStr (toFixed 2 (marketShare r * 100) @ [37]),
          CStr (toFixed 1 (the (yoyGrowth r) * 100) @ [37])]"
    if "yoyGrowth r \<noteq> None" for r
    using that by (auto simp: csvRowOf_def)
  have nn: "yoyGrowth (filter (\<lambda>r. yoyGrowth r \<noteq> None) data ! i) \<noteq> None"
    if "i < length (filter (\<lambda>r. yoyGrowth r \<noteq> None) data)" for i
    using nth_mem[OF that] by simp
  have per: "map fst (csvRowOf r) = [colYear, colPartner, colShare, colGrowth, colShareShown, colGrowthShown] \<and>
       colExport \<notin> set (map fst (csvRowOf r)) \<and>
       map snd (csvRowOf r) =
         [CNum (of_int (year r)), CStr (partnerName r), CNum (marketShare r),
          CNum (the (yoyGrowth r)),
          CStr (toFixed 2 (marketShare r * 100) @ [37]),
          CStr (toFixed 1 (the (yoyGrowth r) * 100) @ [37])]"
    if "yoyGrowth r \<noteq> None" for r
    using cols vals[OF that] unfolding row by blast
  show ?thesis
  proof (intro conjI allI impI)
    show "downloadText unparse data = 65279 # unparse (csvData data)"
      by (simp add: downloadText_def)
    show "length (csvData data) = length (filter (\<lambda>r. yoyGrowth r \<noteq> None) data)"
      by (simp add: csvData_def)
    fix i assume "i < length (csvData data)"
    then have i: "i < length (filter (\<lambda>r. yoyGrowth r \<noteq> None) data)" by (simp add: csvData_def)
    then have eq: "csvData data ! i = csvRowOf (filter (\<lambda>r. yoyGrowth r \<noteq> None) data ! i)"
      by (simp add: csvData_def)
    show "let r = filter (\<lambda>r. yoyGrowth r \<noteq> None) data ! i; row = csvData data ! i in
       map fst row = [colYear, colPartner, colShare, colGrowth, colShareShown, colGrowthShown] \<and>
       colExport \<notin> set (map fst row) \<and>
       map snd row =
         [CNum (of_int (year r)), CStr (partnerName r), CNum (marketShare r),
          CNum (the (yoyGrowth r)),
          CStr (toFixed 2 (marketShare r * 100) @ [37]),
          CStr (toFixed 1 (the (yoyGrowth r) * 100) @ [37])]"
      unfolding Let_def eq by (rule per[OF nn[OF i]])
  qed
qed

subsection \<open>The plotted rows\<close>

lemma truncate_plotRow: "ProcessedData.truncate (plotRow yMin yMax x d i) = d"
  by (simp add: plotRow_def Let_def ProcessedData.truncate_def)

lemma label_plotRow: "label (plotRow yMin yMax x d i) = (if i < 20 then partnerName d else [])"
  by (simp add: plotRow_def Let_def)

lemma plotData_alt:
  "plotData data yr yMin yMax minShare maxShare cf =
     map (\<lambda>(d, index). plotRow yMin yMax (xRefOf (bcgTop data yr minShare maxShare cf)) d index)
         (zip (bcgTop data yr minShare maxShare cf) [0..<length (bcgTop data yr minShare maxShare cf)])"
  by (simp add: plotData_def Let_def)

lemma plotData_length:
  "length (plotData data yr yMin yMax minShare maxShare cf) = length (bcgTop data yr minShare maxShare cf)"
  by (simp add: plotData_alt)

lemma plotData_nth:
  assumes "i < length (bcgTop data yr minShare maxShare cf)"
  shows "plotData data yr yMin yMax minShare maxShare cf ! i =
         plotRow yMin yMax (xRefOf (bcgTop data yr minShare maxShare cf))
           (bcgTop data yr minShare maxShare cf ! i) i"
  using assms by (simp add: plotData_alt)

lemma plotData_truncate:
  "map ProcessedData.truncate (plotData data yr yMin yMax minShare maxShare cf) =
   bcgTop data yr minShare maxShare cf"
  by (rule nth_equalityI) (simp_all add: plotData_length plotData_nth truncate_plotRow)

lemma compareExport_le: "(compareExport a b \<le> 0) = (exportValue b \<le> exportValue a)"
  by (simp add: compareExport_def)

lemma sorted_by_export:
  "sorted_wrt (\<lambda>a b. exportValue b \<le> exportValue a) (jsSort compareExport xs)"
proof -
  have "sorted_wrt (\<lambda>a b. compareExport a b \<le> 0) (jsSort compareExport xs)"
    by (rule sorted_jsSort) (auto simp: compareExport_le)
  then show ?thesis by (simp add: compareExport_le)
qed

lemma bcgFiltered_props:
  assumes "d \<in> set (bcgFiltered data yr minShare maxShare cf)"
  shows "d \<in> set data \<and> year d = yr \<and> yoyGrowth d \<noteq> None \<and> 0 < marketShare d \<and>
         minShare \<le> marketShare d * 100 \<and> marketShare d * 100 \<le> maxShare"
  using assms by (auto simp: bcgFiltered_def Let_def split: if_splits)

lemma nameOrUnknown_ne: "nameOrUnknown n \<noteq> []"
  by (simp add: nameOrUnknown_def unknownName_def split: option.splits)

lemma cleanedData_names: "c \<in> set (cleanedData raw) \<Longrightarrow> partnerName c \<noteq> []"
proof (induction raw)
  case Nil
  then show ?case by (simp add: cleanedData_Nil)
next
  case (Cons x xs)
  then show ?case
    by (cases "extractYear (period x)") (auto simp: cleanedData_Cons cleanRow_def nameOrUnknown_ne)
qed

lemma name_bump: "partnerName (snd (bump key v p)) = partnerName (snd p)"
  by (cases p) (simp add: bump_def)

lemma aggStep_names:
  assumes "\<forall>p\<in>set acc. partnerName (snd p) \<noteq> []" and "partnerName cur \<noteq> []"
  shows "\<forall>p\<in>set (aggStep acc cur). partnerName (snd p) \<noteq> []"
  using assms by (auto simp: aggStep_alt name_bump split: if_splits)

lemma foldl_aggStep_names:
  assumes "\<forall>p\<in>set acc. partnerName (snd p) \<noteq> []" and "\<forall>c\<in>set cs. partnerName c \<noteq> []"
  shows "\<forall>p\<in>set (foldl aggStep acc cs). partnerName (snd p) \<noteq> []"
  using assms
proof (induction cs arbitrary: acc)
  case Nil
  then show ?case by simp
next
  case (Cons c cs)
  have "\<forall>p\<in>set (aggStep acc c). partnerName (snd p) \<noteq> []"
  proof (rule aggStep_names[OF Cons.prems(1)])
    show "partnerName c \<noteq> []" using Cons.prems(2) by simp
  qed
  then show ?case using Cons.IH[of "aggStep acc c"] Cons.prems(2) by simp
qed

lemma processData_names:
  assumes "row \<in> set (processData raw)"
  shows "partnerName row \<noteq> []"
proof -
  let ?agg = "aggregatedArray (cleanedData raw)"
  obtain w where w: "w \<in> set (withMarketShare ?agg)" "row = growthRow (withMarketShare ?agg) w"
    using assms by (auto simp: processData_rows)
  obtain r where r: "r \<in> set ?agg" "partnerName w = partnerName r"
    using withMarketShare_fields[OF w(1)] by blast
  have "\<forall>p\<in>set (aggregated (cleanedData raw)). partnerName (snd p) \<noteq> []"
    unfolding aggregated_def
    by (rule foldl_aggStep_names) (simp_all add: cleanedData_names)
  then have "partnerName r \<noteq> []" using r(1) by (auto simp: aggregatedArray_def)
  then show ?thesis using w(2) r(2) by (simp add: growthRow_fields)
qed

lemma splitOn_none: "\<forall>c\<in>set s. \<not> P c \<Longrightarrow> splitOn P s = [s]"
  by (induction s) simp_all

lemma trim_empty_iff: "(trim s = []) = (\<forall>c\<in>set s. isWhiteSpace c)"
proof
  assume e: "trim s = []"
  show "\<forall>c\<in>set s. isWhiteSpace c"
  proof (rule ccontr)
    assume "\<not> (\<forall>c\<in>set s. isWhiteSpace c)"
    then have ne: "dropWhile isWhiteSpace s \<noteq> []" by (simp add: dropWhile_eq_Nil_conv)
    then have "\<not> isWhiteSpace (hd (dropWhile isWhiteSpace s))" by (rule hd_dropWhile)
    moreover have "hd (dropWhile isWhiteSpace s) \<in> set (rev (dropWhile isWhiteSpace s))"
      using ne by simp
    ultimately have "dropWhile isWhiteSpace (rev (dropWhile isWhiteSpace s)) \<noteq> []"
      by (auto simp: dropWhile_eq_Nil_conv)
    then show False using e by (simp add: trim_def)
  qed
next
  assume "\<forall>c\<in>set s. isWhiteSpace c"
  then show "trim s = []" by (auto simp: trim_def dest: set_dropWhileD)
qed

lemma comma_not_white: "isComma c \<Longrightarrow> \<not> isWhiteSpace c"
  by (auto simp: isComma_def isWhiteSpace_def)

lemma keywordsOf_blank: "trim s = [] \<Longrightarrow> keywordsOf s = []"
proof -
  assume e: "trim s = []"
  then have "\<forall>c\<in>set s. \<not> isComma c" using comma_not_white by (auto simp: trim_empty_iff)
  then have "splitOn isComma s = [s]" by (rule splitOn_none)
  then show ?thesis using e by (simp add: keywordsOf_def)
qed

lemma bcgFiltered_eq:
  "bcgFiltered data yr minShare maxShare cf =
     filter (\<lambda>d. year d = yr \<and> yoyGrowth d \<noteq> None \<and> 0 < marketShare d \<and>
                 minShare \<le> marketShare d * 100 \<and> marketShare d * 100 \<le> maxShare \<and>
                 (keywordsOf cf = [] \<or> list_ex (\<lambda>k. jsIncludes (partnerName d) k) (keywordsOf cf)))
            data"
proof (cases "keywordsOf cf = []")
  case True
  then show ?thesis by (simp add: bcgFiltered_def Let_def conj_commute conj_left_commute cong: conj_cong)
next
  case False
  then have "trim cf \<noteq> []" using keywordsOf_blank by blast
  then show ?thesis using False
    by (simp add: bcgFiltered_def Let_def conj_commute conj_left_commute cong: conj_cong)
qed

subsection \<open>The decimals of the display columns\<close>

lemma not_digit_46: "\<not> isDigit 46" by (simp add: isDigit_def)

lemma toFixed_hasDecimals:
  assumes "0 < f"
  shows "hasDecimals f (toFixed f x)"
proof -
  obtain ip fp where s: "toFixed f x = (if x < 0 then [45] else []) @ ip @ 46 # fp"
    and ip: "ip \<noteq> []" and fp: "length fp = f" and dg: "\<forall>c\<in>set (ip @ fp). isDigit c"
    using toFixed_shape[OF assms, of x] by blast
  have h: "hd ip \<noteq> 45" using ip dg not_digit_45 by (metis hd_in_set set_append UnI1)
  have body: "(if toFixed f x \<noteq> [] \<and> hd (toFixed f x) = 45 then tl (toFixed f x) else toFixed f x) =
              ip @ 46 # fp"
    using s ip h by (cases "x < 0") (simp_all add: hd_append)
  have tw: "takeWhile isDigit (ip @ 46 # fp) = ip"
    using dg not_digit_46 by (simp add: takeWhile_append)
  have dw: "dropWhile isDigit (ip @ 46 # fp) = 46 # fp"
    using dg not_digit_46 by (simp add: dropWhile_append)
  show ?thesis
    unfolding hasDecimals_def Let_def body tw dw
    using ip fp dg by (simp add: list_all_iff)
qed

section \<open>The example inputs, evaluated\<close>

text \<open>
  The stages of the pipeline on the example inputs, computed by rewriting with the
  definitions.
\<close>

lemmas js_eval = asc_def isDigit_def isWhiteSpace_def digitsVal_def natDigits_small natDigits_large String_int_def
  parseInt10_def parseExponent_def pow10_def parseFloat_def orZero_def stripCommas_def
  coerceRmb_def String_period_def extractYear_def unknownName_def nameOrUnknown_def cleanRow_def
  cleanedData_def map_filter_simps Let_def

lemmas agg_eval = aggregatedArray_def aggregated_def aggStep_def aggKey_def String_int_def natDigits_small natDigits_large Let_def

lemmas share_eval = withMarketShare_def globalTotal_def totalStep_def shareDivisor_def orZero_def
  String_int_def natDigits_small natDigits_large

lemmas final_eval = processData_def finalData_def growthRow_def jsSort_def compareRows_def

lemma scenario_cleaned:
  "cleanedData scenario =
     [\<lparr>year = 2023, partnerName = [65], exportValue = 1000\<rparr>,
      \<lparr>year = 2023, partnerName = [66], exportValue = 500\<rparr>,
      \<lparr>year = 2022, partnerName = [65], exportValue = 800\<rparr>]"
  by (simp add: scenario_def js_eval)

lemma scenario_aggregated:
  "aggregatedArray (cleanedData scenario) =
     [\<lparr>year = 2023, partnerName = [65], exportValue = 1000\<rparr>,
      \<lparr>year = 2023, partnerName = [66], exportValue = 500\<rparr>,
      \<lparr>year = 2022, partnerName = [65], exportValue = 800\<rparr>]"
  by (simp add: scenario_cleaned agg_eval)

lemma scenario_shares:
  "withMarketShare (aggregatedArray (cleanedData scenario)) =
     [\<lparr>year = 2023, partnerName = [65], exportValue = 1000, marketShare = 2 / 3\<rparr>,
      \<lparr>year = 2023, partnerName = [66], exportValue = 500, marketShare = 1 / 3\<rparr>,
      \<lparr>year = 2022, partnerName = [65], exportValue = 800, marketShare = 1\<rparr>]"
  by (simp add: scenario_aggregated share_eval)

lemma scenario_processed:
  "processData scenario =
     [\<lparr>year = 2022, partnerName = [65], exportValue = 800, marketShare = 1,
       yoyGrowth = None, prevExport = 0\<rparr>,
      \<lparr>year = 2023, partnerName = [65], exportValue = 1000, marketShare = 2 / 3,
       yoyGrowth = Some (1 / 4), prevExport = 800\<rparr>,
      \<lparr>year = 2023, partnerName = [66], exportValue = 500, marketShare = 1 / 3,
       yoyGrowth = None, prevExport = 0\<rparr>]"
  by (simp add: scenario_shares final_eval)

lemma cancelling_aggregated:
  "aggregatedArray (cleanedData cancelling) =
     [\<lparr>year = 2023, partnerName = [65], exportValue = 5\<rparr>,
      \<lparr>year = 2023, partnerName = [66], exportValue = - 5\<rparr>]"
  by (simp add: cancelling_def js_eval agg_eval)

lemma cancelling_processed:
  "processData cancelling =
     [\<lparr>year = 2023, partnerName = [65], exportValue = 5, marketShare = 5,
       yoyGrowth = None, prevExport = 0\<rparr>,
      \<lparr>year = 2023, partnerName = [66], exportValue = - 5, marketShare = - 5,
       yoyGrowth = None, prevExport = 0\<rparr>]"
  by (simp add: cancelling_aggregated share_eval final_eval)

lemma allZero_aggregated:
  "aggregatedArray (cleanedData allZero) =
     [\<lparr>year = 2023, partnerName = [65], exportValue = 0\<rparr>,
      \<lparr>year = 2023, partnerName = [26410, 30693], exportValue = 0\<rparr>]"
  by (simp add: allZero_def js_eval agg_eval)

lemma allZero_processed:
  "processData allZero =
     [\<lparr>year = 2023, partnerName = [65], exportValue = 0, marketShare = 0,
       yoyGrowth = None, prevExport = 0\<rparr>,
      \<lparr>year = 2023, partnerName = [26410, 30693], exportValue = 0, marketShare = 0,
       yoyGrowth = None, prevExport = 0\<rparr>]"
  by (simp add: allZero_aggregated share_eval final_eval)

lemma shown_2: "toFixed 2 (200 / 3) = [54, 54, 46, 54, 55]"
proof -
  have "\<lfloor>40003 / 6 :: rat\<rfloor> = 6667" by (simp add: floor_eq_iff)
  then have "nat \<lfloor>\<bar>200 / 3 :: rat\<bar> * 10 ^ 2 + 1 / 2\<rfloor> = 6667" by simp
  then show ?thesis
    by (simp add: toFixed_def natDigits_small natDigits_large asc_def Let_def)
qed

lemma shown_1: "toFixed (Suc 0) 25 = [50, 53, 46, 48]"
proof -
  have "\<lfloor>501 / 2 :: rat\<rfloor> = 250" by (simp add: floor_eq_iff)
  then have "nat \<lfloor>\<bar>25 :: rat\<bar> * 10 ^ Suc 0 + 1 / 2\<rfloor> = 250" by simp
  then show ?thesis
    by (simp add: toFixed_def natDigits_small natDigits_large asc_def Let_def)
qed

lemma scenario_csv:
  "csvData (processData scenario) =
     [[(colYear, CNum 2023), (colPartner, CStr (asc ''A'')), (colShare, CNum (2 / 3)),
       (colGrowth, CNum (1 / 4)), (colShareShown, CStr (asc ''66.67%'')),
       (colGrowthShown, CStr (asc ''25.0%''))]]"
  using shown_2 shown_1
  by (simp add: scenario_processed csvData_def csvRowOf_def asc_def del: not_None_eq)

lemma bcg_scenario:
  "bcgFiltered (processData scenario) 2023 0 100 (asc ''A, X'') =
     [\<lparr>year = 2023, partnerName = [65], exportValue = 1000, marketShare = 2 / 3,
       yoyGrowth = Some (1 / 4), prevExport = 800\<rparr>]"
  by (simp add: scenario_processed bcgFiltered_def keywordsOf_def trim_def isComma_def
      isWhiteSpace_def asc_def Let_def del: not_None_eq)

section \<open>The claims\<close>

text \<open>
  Claim C1. For every array of raw records and every year, the export values of the
  records that \<open>processData\<close> returns for that year add up to the sum of the coerced
  export values of the raw records whose extracted year is that year. Raw records whose
  year does not parse have no extracted year and so contribute to no sum.
\<close>

theorem processData_year_sum_preserved:
  "sum_list (map exportValue (filter (\<lambda>r. year r = y) (processData raw))) =
   sum_list (map (\<lambda>r. coerceRmb (rmb r)) (filter (\<lambda>r. extractYear (period r) = Some y) raw))"
  by (simp add: year_sum_processData aggregatedArray_sum cleanedData_sum)

text \<open>
  C1 on \<open>scenario\<close>: the two raw records of 2023 carry 1,000 and 500, and the
  returned records of 2023 add up to 1500.
\<close>

theorem processData_year_sum_preserved_witness:
  "sum_list (map exportValue (filter (\<lambda>r. year r = 2023) (processData scenario))) = 1500"
  using processData_year_sum_preserved[of 2023 scenario]
  by (simp add: scenario_def js_eval)

text \<open>
  Claim C2. For every output of \<open>processData\<close> and every year whose total export
  value is not zero, the market shares of that year's records add up to exactly 1 (the
  numbers being exact rationals).
\<close>

theorem processData_share_sum_one:
  assumes "sum_list (map exportValue (filter (\<lambda>r. year r = y) (processData raw))) \<noteq> 0"
  shows "sum_list (map marketShare (filter (\<lambda>r. year r = y) (processData raw))) = 1"
proof -
  let ?agg = "aggregatedArray (cleanedData raw)"
  have t: "sum_list (map (inYear y) ?agg) \<noteq> 0" using assms by (simp add: year_sum_processData)
  have "sum_list (map marketShare (filter (\<lambda>r. year r = y) (processData raw))) =
        sum_list (map marketShare (filter (\<lambda>r. year r = y) (finalData (withMarketShare ?agg))))"
    by (rule sum_list_mset_cong) (rule processData_mset)
  also have "\<dots> = sum_list (map (inYear y) ?agg) / shareDivisor (globalTotal ?agg) y"
    by (simp add: finalData_share_sum withMarketShare_share_sum)
  also have "\<dots> = 1" using t by (simp add: shareDivisor_total)
  finally show ?thesis .
qed

text \<open>
  C2 on \<open>scenario\<close> and the year 2023, whose total is not zero.
\<close>

theorem processData_share_sum_one_witness:
  "sum_list (map exportValue (filter (\<lambda>r. year r = 2023) (processData scenario))) \<noteq> 0 \<and>
   sum_list (map marketShare (filter (\<lambda>r. year r = 2023) (processData scenario))) = 1"
proof -
  have h: "sum_list (map exportValue (filter (\<lambda>r. year r = 2023) (processData scenario))) \<noteq> 0"
    by (simp add: scenario_processed)
  from h processData_share_sum_one[OF h] show ?thesis by (rule conjI)
qed

text \<open>
  Claim C3. For every record \<open>row\<close> that \<open>processData\<close> returns: whenever a returned
  record \<open>p\<close> has the year before, the same partner name (equal as strings) and a
  nonzero export value, the growth of \<open>row\<close> is
  \<open>(exportValue row - exportValue p) / |exportValue p|\<close>; and when no returned record
  is such a \<open>p\<close> (the partner is absent in the year before, or its export value there
  is zero), the growth is \<open>null\<close>, not zero.
\<close>

theorem processData_growth:
  assumes row: "row \<in> set (processData raw)"
  shows "(\<forall>p\<in>set (processData raw).
            year p = year row - 1 \<and> partnerName p = partnerName row \<and> exportValue p \<noteq> 0 \<longrightarrow>
            yoyGrowth row = Some ((exportValue row - exportValue p) / \<bar>exportValue p\<bar>)) \<and>
         ((\<forall>p\<in>set (processData raw).
            \<not> (year p = year row - 1 \<and> partnerName p = partnerName row \<and> exportValue p \<noteq> 0)) \<longrightarrow>
            yoyGrowth row = None)"
proof -
  let ?ws = "withMarketShare (aggregatedArray (cleanedData raw))"
  obtain w where w: "w \<in> set ?ws" "row = growthRow ?ws w"
    using row by (auto simp: processData_rows)
  let ?P = "\<lambda>r. year r = year w - 1 \<and> partnerName r = partnerName w"
  have a: "yoyGrowth row = Some ((exportValue row - exportValue p) / \<bar>exportValue p\<bar>)"
    if p: "p \<in> set (processData raw)" and c: "year p = year row - 1"
       "partnerName p = partnerName row" "exportValue p \<noteq> 0" for p
  proof -
    obtain v where v: "v \<in> set ?ws" "p = growthRow ?ws v"
      using p by (auto simp: processData_rows)
    have Pv: "?P v" using c(1,2) v(2) w(2) by (simp add: growthRow_fields)
    have "\<And>u. u \<in> set ?ws \<Longrightarrow> ?P u \<Longrightarrow> u = v"
      using withMarketShare_unique[OF _ v(1)] Pv by simp
    then have "find ?P ?ws = Some v" using find_unique[of v ?ws ?P] v(1) Pv by blast
    then show ?thesis using growthRow_prev_found(2)[of w ?ws v] c(3) v(2) w(2)
      by (simp add: growthRow_fields)
  qed
  have b: "yoyGrowth row = None"
    if n: "\<forall>p\<in>set (processData raw).
            \<not> (year p = year row - 1 \<and> partnerName p = partnerName row \<and> exportValue p \<noteq> 0)"
  proof (cases "find ?P ?ws")
    case None
    then show ?thesis using growthRow_prev_none(2)[of w ?ws] w(2) by simp
  next
    case (Some v)
    then have v: "v \<in> set ?ws" "?P v" using find_SomeD by fast+
    then have "growthRow ?ws v \<in> set (processData raw)" by (simp add: processData_rows)
    then have "exportValue v = 0" using n v(2) w(2) by (auto simp: growthRow_fields)
    then show ?thesis using growthRow_prev_found(2)[OF Some] w(2) by simp
  qed
  from a b show ?thesis by blast
qed

text \<open>
  C3 on \<open>scenario\<close>: partner A of 2023 grows by \<open>(1000 - 800) / |800|\<close> over the
  record of 2022, and partner B of 2023, absent in 2022, has growth \<open>null\<close>.
\<close>

theorem processData_growth_witness:
  "yoyGrowth (processData scenario ! 1) = Some ((1000 - 800) / \<bar>800\<bar>) \<and>
   yoyGrowth (processData scenario ! 2) = None"
proof -
  have m0: "processData scenario ! 0 \<in> set (processData scenario)"
    and m1: "processData scenario ! 1 \<in> set (processData scenario)"
    and m2: "processData scenario ! 2 \<in> set (processData scenario)"
    by (simp_all add: scenario_processed)
  have c: "year (processData scenario ! 0) = year (processData scenario ! 1) - 1 \<and>
           partnerName (processData scenario ! 0) = partnerName (processData scenario ! 1) \<and>
           exportValue (processData scenario ! 0) \<noteq> 0"
    by (simp add: scenario_processed)
  have "yoyGrowth (processData scenario ! 1) =
          Some ((exportValue (processData scenario ! 1) - exportValue (processData scenario ! 0)) /
                \<bar>exportValue (processData scenario ! 0)\<bar>)"
    using processData_growth[OF m1] m0 c by blast
  then have a: "yoyGrowth (processData scenario ! 1) = Some ((1000 - 800) / \<bar>800\<bar>)"
    by (simp add: scenario_processed)
  have n: "\<forall>p\<in>set (processData scenario).
             \<not> (year p = year (processData scenario ! 2) - 1 \<and>
                partnerName p = partnerName (processData scenario ! 2) \<and> exportValue p \<noteq> 0)"
    by (simp add: scenario_processed)
  have b: "yoyGrowth (processData scenario ! 2) = None"
    using processData_growth[OF m2] n by blast
  from a b show ?thesis by (rule conjI)
qed

text \<open>
  Claim C4. The array that \<open>processData\<close> returns is sorted by ascending year and,
  within a year, by descending export value.
\<close>

theorem processData_sorted:
  "sorted_wrt (\<lambda>a b. year a < year b \<or> (year a = year b \<and> exportValue b \<le> exportValue a))
     (processData raw)"
proof -
  have "sorted_wrt (\<lambda>a b. compareRows a b \<le> 0) (processData raw)"
    unfolding processData_def
    by (rule sorted_jsSort) (auto simp: compareRows_le)
  then show ?thesis by (simp add: compareRows_le)
qed

text \<open>
  C4 on \<open>scenario\<close>: the years and export values come out as 2022/800, 2023/1000,
  2023/500.
\<close>

theorem processData_sorted_witness:
  "sorted_wrt (\<lambda>a b. year a < year b \<or> (year a = year b \<and> exportValue b \<le> exportValue a))
     (processData scenario) \<and>
   map (\<lambda>r. (year r, exportValue r)) (processData scenario) = [(2022, 800), (2023, 1000), (2023, 500)]"
  using processData_sorted[of scenario] by (simp add: scenario_processed)

text \<open>
  Claim C5. The year of a raw record is \<open>parseInt\<close>, radix 10, of the first four code
  units of the stringified period; and \<open>processData\<close> returns on any input what it
  returns on the input without the records whose year is \<open>NaN\<close>: such a record is
  dropped, contributes to no aggregate, total or growth, and raises nothing
  (\<open>processData\<close> is a total function).
\<close>

theorem processData_drops_bad_years:
  "extractYear p = parseInt10 (take 4 (String_period p)) \<and>
   processData raw = processData (filter (\<lambda>r. extractYear (period r) \<noteq> None) raw)"
proof
  show "extractYear p = parseInt10 (take 4 (String_period p))" by (simp add: extractYear_def)
  show "processData raw = processData (filter (\<lambda>r. extractYear (period r) \<noteq> None) raw)"
    unfolding processData_def cleanedData_filter ..
qed

text \<open>
  C5 on \<open>scenario\<close>: the period \<open>invalid\<close> has no year, the period 202301 has the
  year 2023, and the result is that of the first three records alone.
\<close>

theorem processData_drops_bad_years_witness:
  "extractYear (PStr (asc ''invalid'')) = None \<and> extractYear (PNum 202301) = Some 2023 \<and>
   processData scenario = processData (take 3 scenario)"
proof -
  have f: "filter (\<lambda>r. extractYear (period r) \<noteq> None) scenario = take 3 scenario"
    by (simp add: scenario_def js_eval)
  have a: "extractYear (PStr (asc ''invalid'')) = None"
    using processData_drops_bad_years[of "PStr (asc ''invalid'')" scenario] by (simp add: js_eval)
  have b: "extractYear (PNum 202301) = Some 2023"
    using processData_drops_bad_years[of "PNum 202301" scenario] by (simp add: js_eval)
  have c: "processData scenario = processData (take 3 scenario)"
    using processData_drops_bad_years[of "PNum 202301" scenario] unfolding f by (rule conjunct2)
  from a b c show ?thesis by simp
qed

text \<open>
  Claim C6. An absent export value coerces to 0; a textual one to what \<open>parseFloat\<close>
  reads in the text without its commas, and to 0 when that is \<open>NaN\<close>; a numeric one is
  used as it is. The records are kept whatever their export value: the cleaned rows
  carry the coerced values of exactly the records whose year parses, in order.
\<close>

theorem coerceRmb_cases:
  "coerceRmb Absent = 0 \<and>
   coerceRmb (AStr s) = (case parseFloat (filter (\<lambda>c. c \<noteq> 44) s) of None \<Rightarrow> 0 | Some v \<Rightarrow> v) \<and>
   coerceRmb (ANum v) = v \<and>
   map exportValue (cleanedData raw) =
     map (\<lambda>r. coerceRmb (rmb r)) (filter (\<lambda>r. extractYear (period r) \<noteq> None) raw)"
  by (simp add: coerceRmb_def orZero_def stripCommas_def cleanedData_values split: option.splits)

text \<open>
  C6 at the texts \<open>1,000\<close> and \<open>n/a\<close>, an absent value and the number 500, and on
  \<open>allZero\<close>, whose two records are both kept with the value 0.
\<close>

theorem coerceRmb_cases_witness:
  "coerceRmb (AStr (asc ''1,000'')) = 1000 \<and> coerceRmb (AStr (asc ''n/a'')) = 0 \<and>
   coerceRmb Absent = 0 \<and> coerceRmb (ANum 500) = 500 \<and>
   map exportValue (cleanedData allZero) = [0, 0]"
proof -
  have a: "coerceRmb (AStr (asc ''1,000'')) = 1000"
    using coerceRmb_cases[of "asc ''1,000''" 500 allZero] by (simp add: js_eval)
  have b: "coerceRmb (AStr (asc ''n/a'')) = 0"
    using coerceRmb_cases[of "asc ''n/a''" 500 allZero] by (simp add: js_eval)
  have c: "coerceRmb Absent = 0 \<and> coerceRmb (ANum 500) = 500"
    using coerceRmb_cases[of "asc ''n/a''" 500 allZero] by blast
  have d: "map exportValue (cleanedData allZero) = [0, 0]"
    using coerceRmb_cases[of "asc ''n/a''" 500 allZero] by (simp add: allZero_def js_eval)
  from a b c d show ?thesis by simp
qed

text \<open>
  Claim C7, amended. The market share of every returned record is its export value
  divided by \<open>globalTotal[year] || 1\<close>; this divisor is the total of the record's year,
  or 1 when that total is zero, and so is never zero. In a year whose total is zero
  every record's share is its own export value; it is 0 when no export value of that
  year is negative.
\<close>

theorem zero_total_divisor:
  assumes row: "row \<in> set (processData raw)"
  shows "marketShare row =
           exportValue row / shareDivisor (globalTotal (aggregatedArray (cleanedData raw))) (year row) \<and>
         shareDivisor (globalTotal (aggregatedArray (cleanedData raw))) (year row) \<noteq> 0 \<and>
         shareDivisor (globalTotal (aggregatedArray (cleanedData raw))) (year row) =
           (if sum_list (map exportValue (filter (\<lambda>r. year r = year row) (processData raw))) = 0 then 1
            else sum_list (map exportValue (filter (\<lambda>r. year r = year row) (processData raw)))) \<and>
         (sum_list (map exportValue (filter (\<lambda>r. year r = year row) (processData raw))) = 0 \<longrightarrow>
            marketShare row = exportValue row \<and>
            ((\<forall>r\<in>set (processData raw). year r = year row \<longrightarrow> 0 \<le> exportValue r) \<longrightarrow>
               marketShare row = 0))"
proof -
  let ?T = "sum_list (map exportValue (filter (\<lambda>r. year r = year row) (processData raw)))"
  note d = share_divisor_of_row[OF row]
  have z: "marketShare row = 0"
    if t: "?T = 0" and nn: "\<forall>r\<in>set (processData raw). year r = year row \<longrightarrow> 0 \<le> exportValue r"
  proof -
    have "\<forall>x\<in>set (map exportValue (filter (\<lambda>r. year r = year row) (processData raw))). x = 0"
      using t nn by (subst (asm) sum_list_nonneg_eq_0_iff) auto
    then have "exportValue row = 0" using row by simp
    then show ?thesis using d by simp
  qed
  have e: "marketShare row = exportValue row" if "?T = 0" using d that by simp
  from d z e show ?thesis by blast
qed

text \<open>
  The amended C7 on \<open>cancelling\<close>, where the total of 2023 is zero and the first
  record keeps its export value 5 as share, and on \<open>allZero\<close>, where the total is zero,
  no value is negative and the share is 0.
\<close>

theorem zero_total_divisor_witness:
  "marketShare (processData cancelling ! 0) = 5 \<and> marketShare (processData allZero ! 0) = 0"
proof -
  have m: "processData cancelling ! 0 \<in> set (processData cancelling)"
    by (simp add: cancelling_processed)
  have t: "sum_list (map exportValue
             (filter (\<lambda>r. year r = year (processData cancelling ! 0)) (processData cancelling))) = 0"
    by (simp add: cancelling_processed)
  have "marketShare (processData cancelling ! 0) = exportValue (processData cancelling ! 0)"
    using zero_total_divisor[OF m] t by blast
  then have a: "marketShare (processData cancelling ! 0) = 5" by (simp add: cancelling_processed)
  have m': "processData allZero ! 0 \<in> set (processData allZero)"
    by (simp add: allZero_processed)
  have t': "sum_list (map exportValue
             (filter (\<lambda>r. year r = year (processData allZero ! 0)) (processData allZero))) = 0"
    by (simp add: allZero_processed)
  have n': "\<forall>r\<in>set (processData allZero). year r = year (processData allZero ! 0) \<longrightarrow> 0 \<le> exportValue r"
    by (simp add: allZero_processed)
  have b: "marketShare (processData allZero ! 0) = 0"
    using zero_total_divisor[OF m'] t' n' by blast
  from a b show ?thesis by (rule conjI)
qed

text \<open>
  Claim C7 as stated fails on \<open>cancelling\<close>: the total of 2023 is zero, yet the two
  partners receive the shares 5 and -5, not 0.
\<close>

theorem zero_total_share_counterexample:
  "globalTotal (aggregatedArray (cleanedData cancelling)) (String_int 2023) = Some 0 \<and>
   map marketShare (processData cancelling) = [5, - 5]"
  by (simp add: cancelling_processed cancelling_aggregated share_eval)

text \<open>
  Claim C8, amended. The text handed to the download is U+FEFF followed by what
  \<open>Papa.unparse\<close> makes of the export rows. There is one export row for each record
  with non-null growth, in order; its columns are, in this order, the year, the partner
  name, the market share, the growth, and the two display columns; the export value is
  not among them. The values are the year, the name, the raw share, the raw growth, the
  share times 100 with two decimals and a percent sign, and the growth times 100 with
  one decimal and a percent sign.
\<close>

theorem downloadCSV_rows:
  "downloadText unparse data = 65279 # unparse (csvData data) \<and>
   length (csvData data) = length (filter (\<lambda>r. yoyGrowth r \<noteq> None) data) \<and>
   (\<forall>i < length (csvData data).
      (let r = filter (\<lambda>r. yoyGrowth r \<noteq> None) data ! i; row = csvData data ! i in
       map fst row = [colYear, colPartner, colShare, colGrowth, colShareShown, colGrowthShown] \<and>
       colExport \<notin> set (map fst row) \<and>
       map snd row =
         [CNum (of_int (year r)), CStr (partnerName r), CNum (marketShare r),
          CNum (the (yoyGrowth r)),
          CStr (toFixed 2 (marketShare r * 100) @ [37]),
          CStr (toFixed 1 (the (yoyGrowth r) * 100) @ [37])] \<and>
       hasDecimals 2 (toFixed 2 (marketShare r * 100)) \<and>
       hasDecimals 1 (toFixed 1 (the (yoyGrowth r) * 100))))"
  using csv_rows[of unparse data] by (simp add: Let_def toFixed_hasDecimals)

text \<open>
  The amended C8 on the processed \<open>scenario\<close>, with an \<open>unparse\<close> that writes the
  column names of every row: the text starts with U+FEFF, and the one export row shows
  2023, A, 2/3, 1/4, \<open>66.67%\<close> and \<open>25.0%\<close>.
\<close>

theorem downloadCSV_rows_witness:
  "downloadText (\<lambda>rows. concat (map (concat \<circ> map fst) rows)) (processData scenario) =
     65279 # colYear @ colPartner @ colShare @ colGrowth @ colShareShown @ colGrowthShown \<and>
   map snd (csvData (processData scenario) ! 0) =
     [CNum 2023, CStr (asc ''A''), CNum (2 / 3), CNum (1 / 4), CStr (asc ''66.67%''),
      CStr (asc ''25.0%'')] \<and>
   hasDecimals 2 (asc ''66.67'') \<and> hasDecimals 1 (asc ''25.0'')"
proof -
  note t = downloadCSV_rows[of "\<lambda>rows. concat (map (concat \<circ> map fst) rows)" "processData scenario"]
  have l: "0 < length (csvData (processData scenario))" by (simp add: scenario_csv)
  have f: "filter (\<lambda>r. yoyGrowth r \<noteq> None) (processData scenario) ! 0 =
             \<lparr>year = 2023, partnerName = [65], exportValue = 1000, marketShare = 2 / 3,
              yoyGrowth = Some (1 / 4), prevExport = 800\<rparr>"
    by (simp add: scenario_processed del: not_None_eq)
  have a: "downloadText (\<lambda>rows. concat (map (concat \<circ> map fst) rows)) (processData scenario) =
     65279 # colYear @ colPartner @ colShare @ colGrowth @ colShareShown @ colGrowthShown"
    using t by (simp add: scenario_csv)
  have r: "map snd (csvData (processData scenario) ! 0) =
         [CNum (of_int 2023), CStr [65], CNum (2 / 3), CNum (the (Some (1 / 4))),
          CStr (toFixed 2 (2 / 3 * 100) @ [37]), CStr (toFixed 1 (the (Some (1 / 4)) * 100) @ [37])] \<and>
       hasDecimals 2 (toFixed 2 (2 / 3 * 100)) \<and>
       hasDecimals 1 (toFixed 1 (the (Some (1 / 4)) * 100))"
    using t[THEN conjunct2, THEN conjunct2, rule_format, OF l, unfolded Let_def f]
    by simp
  from a r show ?thesis by (simp add: shown_1 shown_2 asc_def)
qed

text \<open>
  Claim C8 as stated fails on the processed \<open>scenario\<close>: the export row of the one
  record with growth has six columns, none of them the export value, although that
  record's export value is 1000.
\<close>

theorem downloadCSV_export_column_counterexample:
  "map fst (csvData (processData scenario) ! 0) =
     [colYear, colPartner, colShare, colGrowth, colShareShown, colGrowthShown] \<and>
   colExport \<notin> set (map fst (csvData (processData scenario) ! 0)) \<and>
   map snd (csvData (processData scenario) ! 0) =
     [CNum 2023, CStr (asc ''A''), CNum (2 / 3), CNum (1 / 4), CStr (asc ''66.67%''),
      CStr (asc ''25.0%'')] \<and>
   exportValue (filter (\<lambda>r. yoyGrowth r \<noteq> None) (processData scenario) ! 0) = 1000"
  unfolding scenario_csv
  by (simp add: scenario_processed colExport_def colYear_def colPartner_def colShare_def
      colGrowth_def colShareShown_def colGrowthShown_def del: not_None_eq)

text \<open>
  Claim C9. For a processed data set, a selected year and any state of the controls,
  the plotted rows are at most 35; they are the first rows of an arrangement by
  descending export value of the records that pass the filters (the records of the year
  with a growth, a positive share, a share percentage within the bounds and, when the
  keyword filter holds a keyword, a partner name that includes one); and a plotted row
  has its partner name as label when its index is below 20 and the empty label
  otherwise, so that exactly the first 20 rows carry a non-empty label.
\<close>

theorem plotData_top35_labels:
  fixes raw yr yMin yMax minShare maxShare cf
  defines "flt \<equiv> bcgFiltered (processData raw) yr minShare maxShare cf"
    and "pd \<equiv> plotData (processData raw) yr yMin yMax minShare maxShare cf"
  shows "length pd = min 35 (length flt) \<and>
         (\<exists>rest. mset (map ProcessedData.truncate pd @ rest) = mset flt \<and>
            sorted_wrt (\<lambda>a b. exportValue b \<le> exportValue a) (map ProcessedData.truncate pd @ rest)) \<and>
         flt = filter (\<lambda>d. year d = yr \<and> yoyGrowth d \<noteq> None \<and> 0 < marketShare d \<and>
                 minShare \<le> marketShare d * 100 \<and> marketShare d * 100 \<le> maxShare \<and>
                 (keywordsOf cf = [] \<or> list_ex (\<lambda>k. jsIncludes (partnerName d) k) (keywordsOf cf)))
            (processData raw) \<and>
         (\<forall>i < length pd. label (pd ! i) = (if i < 20 then partnerName (pd ! i) else []) \<and>
            (label (pd ! i) \<noteq> []) = (i < 20))"
proof -
  let ?top = "bcgTop (processData raw) yr minShare maxShare cf"
  have top: "?top = take 35 (jsSort compareExport flt)" by (simp add: bcgTop_def flt_def)
  have tr: "map ProcessedData.truncate pd = ?top" by (simp add: pd_def plotData_truncate)
  have 1: "length pd = min 35 (length flt)"
    using top by (simp add: pd_def plotData_length length_jsSort min.commute)
  have 2: "\<exists>rest. mset (map ProcessedData.truncate pd @ rest) = mset flt \<and>
            sorted_wrt (\<lambda>a b. exportValue b \<le> exportValue a) (map ProcessedData.truncate pd @ rest)"
  proof (intro exI conjI)
    show "mset (map ProcessedData.truncate pd @ drop 35 (jsSort compareExport flt)) = mset flt"
      unfolding tr top append_take_drop_id by (rule mset_jsSort)
    show "sorted_wrt (\<lambda>a b. exportValue b \<le> exportValue a)
            (map ProcessedData.truncate pd @ drop 35 (jsSort compareExport flt))"
      unfolding tr top append_take_drop_id by (rule sorted_by_export)
  qed
  have 3: "flt = filter (\<lambda>d. year d = yr \<and> yoyGrowth d \<noteq> None \<and> 0 < marketShare d \<and>
                 minShare \<le> marketShare d * 100 \<and> marketShare d * 100 \<le> maxShare \<and>
                 (keywordsOf cf = [] \<or> list_ex (\<lambda>k. jsIncludes (partnerName d) k) (keywordsOf cf)))
            (processData raw)"
    unfolding flt_def by (rule bcgFiltered_eq)
  have 4: "label (pd ! i) = (if i < 20 then partnerName (pd ! i) else []) \<and>
            (label (pd ! i) \<noteq> []) = (i < 20)" if i: "i < length pd" for i
  proof -
    have i': "i < length ?top" using i by (simp add: pd_def plotData_length)
    have row: "pd ! i = plotRow yMin yMax (xRefOf ?top) (?top ! i) i"
      unfolding pd_def by (rule plotData_nth[OF i'])
    have "?top ! i \<in> set ?top" using i' by simp
    then have "?top ! i \<in> set flt" unfolding top using set_jsSort by (metis in_set_takeD)
    then have "?top ! i \<in> set (processData raw)"
      using bcgFiltered_props unfolding flt_def by blast
    then have ne: "partnerName (?top ! i) \<noteq> []" by (rule processData_names)
    have nm: "partnerName (pd ! i) = partnerName (?top ! i)"
      unfolding row by (simp add: plotRow_def Let_def)
    show ?thesis using ne nm by (simp add: row label_plotRow)
  qed
  from 1 2 3 4 show ?thesis by blast
qed

text \<open>
  C9 on the processed \<open>scenario\<close>, the year 2023, the default bounds and the keyword
  filter \<open>A, X\<close>: one row is plotted, and it carries its partner name as label.
\<close>

theorem plotData_top35_labels_witness:
  "length (plotData (processData scenario) 2023 (- 1) 3 0 100 (asc ''A, X'')) = 1 \<and>
   label (plotData (processData scenario) 2023 (- 1) 3 0 100 (asc ''A, X'') ! 0) =
     partnerName (plotData (processData scenario) 2023 (- 1) 3 0 100 (asc ''A, X'') ! 0) \<and>
   label (plotData (processData scenario) 2023 (- 1) 3 0 100 (asc ''A, X'') ! 0) \<noteq> []"
proof -
  note t = plotData_top35_labels[of scenario 2023 "- 1" 3 0 100 "asc ''A, X''"]
  have l: "length (plotData (processData scenario) 2023 (- 1) 3 0 100 (asc ''A, X'')) = 1"
    using t by (simp add: bcg_scenario)
  then have i: "0 < length (plotData (processData scenario) 2023 (- 1) 3 0 100 (asc ''A, X''))"
    by simp
  have "label (plotData (processData scenario) 2023 (- 1) 3 0 100 (asc ''A, X'') ! 0) =
          (if (0::nat) < 20 then partnerName (plotData (processData scenario) 2023 (- 1) 3 0 100 (asc ''A, X'') ! 0) else []) \<and>
        (label (plotData (processData scenario) 2023 (- 1) 3 0 100 (asc ''A, X'') ! 0) \<noteq> []) = ((0::nat) < 20)"
    using t i by blast
  with l show ?thesis by auto
qed

text \<open>
  Claim C10. In every record that \<open>processData\<close> returns, last year's export value
  is zero exactly when the growth is \<open>null\<close>; and when the growth is not \<open>null\<close>,
  last year's export value is the export value of a returned record of the year before
  with the same partner name, and the growth is the record's own export value minus
  last year's, divided by the absolute value of last year's.
\<close>

theorem processData_prev_export:
  assumes row: "row \<in> set (processData raw)"
  shows "((prevExport row = 0) = (yoyGrowth row = None)) \<and>
         (yoyGrowth row \<noteq> None \<longrightarrow>
            (\<exists>p\<in>set (processData raw). year p = year row - 1 \<and> partnerName p = partnerName row \<and>
                 exportValue p = prevExport row) \<and>
            yoyGrowth row = Some ((exportValue row - prevExport row) / \<bar>prevExport row\<bar>))"
proof -
  let ?ws = "withMarketShare (aggregatedArray (cleanedData raw))"
  obtain w where w: "w \<in> set ?ws" "row = growthRow ?ws w"
    using row by (auto simp: processData_rows)
  let ?P = "\<lambda>r. year r = year w - 1 \<and> partnerName r = partnerName w"
  have 1: "(prevExport row = 0) = (yoyGrowth row = None)"
    using growthRow_recompute(1) w(2) by simp
  have 2: "yoyGrowth row = Some ((exportValue row - prevExport row) / \<bar>prevExport row\<bar>)"
    if "yoyGrowth row \<noteq> None"
    using that growthRow_recompute(2) w(2) by simp
  have 3: "\<exists>p\<in>set (processData raw). year p = year row - 1 \<and> partnerName p = partnerName row \<and>
                 exportValue p = prevExport row"
    if g: "yoyGrowth row \<noteq> None"
  proof (cases "find ?P ?ws")
    case None
    then show ?thesis using growthRow_prev_none(2)[of w ?ws] w(2) g by simp
  next
    case (Some v)
    then have v: "v \<in> set ?ws" "?P v" using find_SomeD by fast+
    then have m: "growthRow ?ws v \<in> set (processData raw)" by (simp add: processData_rows)
    have "prevExport row = exportValue v" using growthRow_prev_found(1)[OF Some] w(2) by simp
    then show ?thesis using m v(2) w(2) by (auto simp: growthRow_fields intro!: bexI[of _ "growthRow ?ws v"])
  qed
  from 1 2 3 show ?thesis by blast
qed

text \<open>
  C10 on \<open>scenario\<close>: partner A of 2023 has last year's export value 800 and the
  growth \<open>(1000 - 800) / |800|\<close>; partner B of 2023, with growth \<open>null\<close>, has 0.
\<close>

theorem processData_prev_export_witness:
  "processData scenario ! 1 \<in> set (processData scenario) \<and>
   prevExport (processData scenario ! 1) = 800 \<and>
   yoyGrowth (processData scenario ! 1) = Some ((1000 - 800) / \<bar>800\<bar>) \<and>
   prevExport (processData scenario ! 2) = 0"
proof -
  have m1: "processData scenario ! 1 \<in> set (processData scenario)"
    and m2: "processData scenario ! 2 \<in> set (processData scenario)"
    by (simp_all add: scenario_processed)
  have g: "yoyGrowth (processData scenario ! 1) \<noteq> None" by (simp add: scenario_processed)
  obtain p where p: "p \<in> set (processData scenario)"
      "year p = year (processData scenario ! 1) - 1"
      "partnerName p = partnerName (processData scenario ! 1)"
      "exportValue p = prevExport (processData scenario ! 1)"
    using processData_prev_export[OF m1] g by blast
  have a: "prevExport (processData scenario ! 1) = 800"
    using p by (auto simp: scenario_processed)
  have "yoyGrowth (processData scenario ! 1) =
          Some ((exportValue (processData scenario ! 1) - prevExport (processData scenario ! 1)) /
                \<bar>prevExport (processData scenario ! 1)\<bar>)"
    using processData_prev_export[OF m1] g by blast
  then have b: "yoyGrowth (processData scenario ! 1) = Some ((1000 - 800) / \<bar>800\<bar>)"
    unfolding a by (simp add: scenario_processed)
  have n: "yoyGrowth (processData scenario ! 2) = None" by (simp add: scenario_processed)
  have c: "prevExport (processData scenario ! 2) = 0"
    using processData_prev_export[OF m2] n by blast
  from m1 a b c show ?thesis by blast
qed

end
